theory Spec2Isabelle
  imports Complex_Main "HOL-Library.Multiset"
begin

section \<open>Data model\<close>

text \<open>
  \<^verbatim>\<open>FilterSpecification.operator\<close> (filter-specification.ts): the ten comparison and
  membership operators of the query language, in the order of the source's union type.
\<close>

datatype operator =
  Lt | Le | Eq | Gt | Ge | Ne | ArrayContains | ArrayContainsAny | In | NotIn

text \<open>The direction of a sort specification: \<^verbatim>\<open>'asc' | 'desc'\<close>.\<close>

datatype direction = Asc | Desc

text \<open>
  A JavaScript \<^verbatim>\<open>number\<close>, as far as the repository looks at it. The repository only
  tests a number for truthiness, so the finite values are taken as rationals; the
  values the test treats specially (\<^verbatim>\<open>NaN\<close>, \<^verbatim>\<open>-0\<close>) and the infinities are
  constructors of their own. \<open>Finite 0\<close> is \<^verbatim>\<open>+0\<close>.
\<close>

datatype number = NaN | PosInfinity | NegInfinity | NegZero | Finite rat

text \<open>
  A value of TypeScript type \<^verbatim>\<open>any\<close>. Reading a property that an object does not
  have gives \<open>Undefined\<close>, so an absent cursor and a cursor set to
  \<^verbatim>\<open>undefined\<close> are the same value here, as they are for the source's
  \<^verbatim>\<open>typeof x !== 'undefined'\<close>.
\<close>

datatype jsval =
  Undefined
| Null
| Bool bool
| Num number
| Str string
| Arr "jsval list"
| Obj "(string \<times> jsval) list"

text \<open>
  \<^verbatim>\<open>FilterSpecification\<close> (filter-specification.ts). The property \<^verbatim>\<open>value\<close> is
  the field \<open>value_f\<close>.
\<close>

record FilterSpecification =
  fieldName :: string
  operator :: operator
  value_f :: jsval

text \<open>
  Modelled from the spec: \<^verbatim>\<open>sort-specification.ts\<close> is imported by
  \<^verbatim>\<open>fetch-options.ts\<close> but is not among the sources. The spec gives a sort
  specification as \<^verbatim>\<open>{fieldName, direction}\<close> with direction \<^verbatim>\<open>asc|desc\<close>;
  the repository reads exactly these two properties. Its \<^verbatim>\<open>fieldName\<close> is the
  field \<open>sortFieldName\<close>, to keep it apart from the one of a filter.
\<close>

record SortSpecification =
  sortFieldName :: string
  direction :: direction

text \<open>
  \<^verbatim>\<open>FetchOptions\<close> (fetch-options.ts), fields in the order of the source. Every
  property is optional: an absent array or limit is \<open>None\<close>, an absent cursor is
  \<open>Undefined\<close>.
\<close>

record FetchOptions =
  endAt :: jsval
  endBefore :: jsval
  filters :: "FilterSpecification list option"
  limit :: "number option"
  sorts :: "SortSpecification list option"
  startAfter :: jsval
  startAt :: jsval

text \<open>The empty options object \<^verbatim>\<open>{}\<close>, the default argument of the fetch methods.\<close>

definition emptyOptions :: FetchOptions where
  "emptyOptions =
     \<lparr>endAt = Undefined, endBefore = Undefined, filters = None, limit = None,
      sorts = None, startAfter = Undefined, startAt = Undefined\<rparr>"

section \<open>JavaScript truthiness\<close>

text \<open>\<^verbatim>\<open>if (n)\<close> for a number: false for \<^verbatim>\<open>+0\<close>, \<^verbatim>\<open>-0\<close> and \<^verbatim>\<open>NaN\<close>.\<close>

fun truthy_number :: "number \<Rightarrow> bool" where
  "truthy_number NaN = False"
| "truthy_number NegZero = False"
| "truthy_number (Finite r) = (r \<noteq> 0)"
| "truthy_number PosInfinity = True"
| "truthy_number NegInfinity = True"

text \<open>A positive number, in the sense of the prose: greater than zero.\<close>

fun positive_number :: "number \<Rightarrow> bool" where
  "positive_number (Finite r) = (0 < r)"
| "positive_number PosInfinity = True"
| "positive_number NaN = False"
| "positive_number NegZero = False"
| "positive_number NegInfinity = False"

text \<open>\<^verbatim>\<open>if (!id)\<close> for an optional string: true when absent and for the empty string.\<close>

definition falsy_string :: "string option \<Rightarrow> bool" where
  "falsy_string s = (case s of None \<Rightarrow> True | Some t \<Rightarrow> t = [])"

section \<open>The query builder of the client\<close>

text \<open>
  The repository builds its query by calling the methods of the client's
  \<^verbatim>\<open>Query\<close> objects. The client is an external collaborator, so the builder is
  a parameter: a record of the seven methods the repository calls, over any type
  \<open>'q\<close> of queries (a collection reference is a query too) and any type \<open>'e\<close>
  of errors the client may throw.
\<close>

record ('q, 'e) QueryBuilder =
  q_where :: "'q \<Rightarrow> string \<Rightarrow> operator \<Rightarrow> jsval \<Rightarrow> 'e + 'q"
  q_orderBy :: "'q \<Rightarrow> string \<Rightarrow> direction \<Rightarrow> 'e + 'q"
  q_startAt :: "'q \<Rightarrow> jsval \<Rightarrow> 'e + 'q"
  q_startAfter :: "'q \<Rightarrow> jsval \<Rightarrow> 'e + 'q"
  q_endAt :: "'q \<Rightarrow> jsval \<Rightarrow> 'e + 'q"
  q_endBefore :: "'q \<Rightarrow> jsval \<Rightarrow> 'e + 'q"
  q_limit :: "'q \<Rightarrow> number \<Rightarrow> 'e + 'q"

text \<open>
  What a call of the repository can throw: an error of the client, as the client
  raised it, or the \<^verbatim>\<open>TypeError\<close> of JavaScript for a method call on
  \<^verbatim>\<open>null\<close>.
\<close>

datatype 'e thrown = ClientError 'e | TypeError

text \<open>Sequencing of steps that may throw: the first error ends the run.\<close>

definition and_then :: "'x + 'a \<Rightarrow> ('a \<Rightarrow> 'x + 'b) \<Rightarrow> 'x + 'b" where
  "and_then r k = (case r of Inl e \<Rightarrow> Inl e | Inr a \<Rightarrow> k a)"

text \<open>A call of a client method: its error, if any, is thrown on as it is.\<close>

definition client_call :: "'e + 'a \<Rightarrow> 'e thrown + 'a" where
  "client_call r = (case r of Inl e \<Rightarrow> Inl (ClientError e) | Inr a \<Rightarrow> Inr a)"

text \<open>\<^verbatim>\<open>query || ref\<close>: a query object is truthy, \<^verbatim>\<open>null\<close> is not.\<close>

definition or_ref :: "'q option \<Rightarrow> 'q \<Rightarrow> 'q" where
  "or_ref query ref = (case query of None \<Rightarrow> ref | Some q \<Rightarrow> q)"

text \<open>
  \<^verbatim>\<open>query = query.m(v)\<close> on a variable that may hold \<^verbatim>\<open>null\<close>: the cursor
  methods are called on \<^verbatim>\<open>query\<close> itself, without \<^verbatim>\<open>|| ref\<close>.
\<close>

definition call_on :: "'q option \<Rightarrow> ('q \<Rightarrow> 'e + 'q) \<Rightarrow> 'e thrown + 'q option" where
  "call_on query m =
     (case query of
        None \<Rightarrow> Inl TypeError
      | Some q \<Rightarrow> and_then (client_call (m q)) (\<lambda>q'. Inr (Some q')))"

section \<open>Query translation\<close>

text \<open>The loop of \<^verbatim>\<open>applyFilters\<close>: one \<^verbatim>\<open>where\<close> per filter, in array order.\<close>

fun applyFilters_loop ::
  "('q, 'e) QueryBuilder \<Rightarrow> FilterSpecification list \<Rightarrow> 'q option \<Rightarrow> 'q \<Rightarrow> 'e thrown + 'q option"
where
  "applyFilters_loop b [] query ref = Inr query"
| "applyFilters_loop b (f # rest) query ref =
     and_then (client_call (q_where b (or_ref query ref) (fieldName f) (operator f) (value_f f)))
       (\<lambda>q. applyFilters_loop b rest (Some q) ref)"

definition applyFilters ::
  "('q, 'e) QueryBuilder \<Rightarrow> FetchOptions \<Rightarrow> 'q option \<Rightarrow> 'q \<Rightarrow> 'e thrown + 'q option"
where
  "applyFilters b options query ref =
     (case filters options of
        None \<Rightarrow> Inr query
      | Some fs \<Rightarrow> if length fs \<noteq> 0 then applyFilters_loop b fs query ref else Inr query)"

definition applyLimit ::
  "('q, 'e) QueryBuilder \<Rightarrow> FetchOptions \<Rightarrow> 'q option \<Rightarrow> 'q \<Rightarrow> 'e thrown + 'q option"
where
  "applyLimit b options query ref =
     (case limit options of
        None \<Rightarrow> Inr query
      | Some n \<Rightarrow>
          if truthy_number n
          then and_then (client_call (q_limit b (or_ref query ref) n)) (\<lambda>q. Inr (Some q))
          else Inr query)"

text \<open>The loop of \<^verbatim>\<open>applySorts\<close>: one \<^verbatim>\<open>orderBy\<close> per sort, in array order.\<close>

fun applySorts_loop ::
  "('q, 'e) QueryBuilder \<Rightarrow> SortSpecification list \<Rightarrow> 'q option \<Rightarrow> 'q \<Rightarrow> 'e thrown + 'q option"
where
  "applySorts_loop b [] query ref = Inr query"
| "applySorts_loop b (s # rest) query ref =
     and_then (client_call (q_orderBy b (or_ref query ref) (sortFieldName s) (direction s)))
       (\<lambda>q. applySorts_loop b rest (Some q) ref)"

text \<open>One of the four \<^verbatim>\<open>if (typeof options.c !== 'undefined') query = query.c(options.c)\<close>.\<close>

definition applyCursor ::
  "('q \<Rightarrow> jsval \<Rightarrow> 'e + 'q) \<Rightarrow> jsval \<Rightarrow> 'q option \<Rightarrow> 'e thrown + 'q option"
where
  "applyCursor m v query =
     (if v \<noteq> Undefined then call_on query (\<lambda>q. m q v) else Inr query)"

definition applySorts ::
  "('q, 'e) QueryBuilder \<Rightarrow> FetchOptions \<Rightarrow> 'q option \<Rightarrow> 'q \<Rightarrow> 'e thrown + 'q option"
where
  "applySorts b options query ref =
     (case sorts options of
        None \<Rightarrow> Inr query
      | Some ss \<Rightarrow>
          if length ss \<noteq> 0
          then
            and_then (applySorts_loop b ss query ref) (\<lambda>q1.
            and_then (applyCursor (q_startAt b) (startAt options) q1) (\<lambda>q2.
            and_then (applyCursor (q_startAfter b) (startAfter options) q2) (\<lambda>q3.
            and_then (applyCursor (q_endAt b) (endAt options) q3) (\<lambda>q4.
            applyCursor (q_endBefore b) (endBefore options) q4))))
          else Inr query)"

text \<open>\<^verbatim>\<open>applyOptions\<close>: starts from \<^verbatim>\<open>null\<close>; filters, then sorts, then limit.\<close>

definition applyOptions ::
  "('q, 'e) QueryBuilder \<Rightarrow> FetchOptions \<Rightarrow> 'q \<Rightarrow> 'e thrown + 'q option"
where
  "applyOptions b options ref =
     and_then (applyFilters b options None ref) (\<lambda>q1.
     and_then (applySorts b options q1 ref) (\<lambda>q2.
     applyLimit b options q2 ref))"

section \<open>The recording builder\<close>

text \<open>
  A call made on the builder, with its arguments. The recording builder takes the list
  of the calls made so far as the query: every method appends its own call and none
  throws, so the query it returns is the sequence of clauses the repository attached,
  in the order of attachment. The base collection reference is the empty list.
\<close>

datatype clause =
  WhereC string operator jsval
| OrderByC string direction
| StartAtC jsval
| StartAfterC jsval
| EndAtC jsval
| EndBeforeC jsval
| LimitC number

definition recording :: "(clause list, unit) QueryBuilder" where
  "recording =
     \<lparr>q_where = (\<lambda>q f op v. Inr (q @ [WhereC f op v])),
      q_orderBy = (\<lambda>q f d. Inr (q @ [OrderByC f d])),
      q_startAt = (\<lambda>q v. Inr (q @ [StartAtC v])),
      q_startAfter = (\<lambda>q v. Inr (q @ [StartAfterC v])),
      q_endAt = (\<lambda>q v. Inr (q @ [EndAtC v])),
      q_endBefore = (\<lambda>q v. Inr (q @ [EndBeforeC v])),
      q_limit = (\<lambda>q n. Inr (q @ [LimitC n]))\<rparr>"

fun is_cursor :: "clause \<Rightarrow> bool" where
  "is_cursor (StartAtC v) = True"
| "is_cursor (StartAfterC v) = True"
| "is_cursor (EndAtC v) = True"
| "is_cursor (EndBeforeC v) = True"
| "is_cursor (WhereC f op v) = False"
| "is_cursor (OrderByC f d) = False"
| "is_cursor (LimitC n) = False"

fun is_limit :: "clause \<Rightarrow> bool" where
  "is_limit (LimitC n) = True"
| "is_limit (WhereC f op v) = False"
| "is_limit (OrderByC f d) = False"
| "is_limit (StartAtC v) = False"
| "is_limit (StartAfterC v) = False"
| "is_limit (EndAtC v) = False"
| "is_limit (EndBeforeC v) = False"

fun is_where :: "clause \<Rightarrow> bool" where
  "is_where (WhereC f op v) = True"
| "is_where (OrderByC f d) = False"
| "is_where (StartAtC v) = False"
| "is_where (StartAfterC v) = False"
| "is_where (EndAtC v) = False"
| "is_where (EndBeforeC v) = False"
| "is_where (LimitC n) = False"

text \<open>The \<^verbatim>\<open>where\<close> call the loop of \<^verbatim>\<open>applyFilters\<close> makes for a filter.\<close>

definition where_of :: "FilterSpecification \<Rightarrow> clause" where
  "where_of f = WhereC (fieldName f) (operator f) (value_f f)"

text \<open>The \<^verbatim>\<open>orderBy\<close> call the loop of \<^verbatim>\<open>applySorts\<close> makes for a sort.\<close>

definition orderBy_of :: "SortSpecification \<Rightarrow> clause" where
  "orderBy_of s = OrderByC (sortFieldName s) (direction s)"

text \<open>
  Replaying recorded calls on any builder, from a starting query: what it means for a
  builder to receive this sequence of calls.
\<close>

fun replay_clause :: "('q, 'e) QueryBuilder \<Rightarrow> clause \<Rightarrow> 'q \<Rightarrow> 'e + 'q" where
  "replay_clause b (WhereC f op v) q = q_where b q f op v"
| "replay_clause b (OrderByC f d) q = q_orderBy b q f d"
| "replay_clause b (StartAtC v) q = q_startAt b q v"
| "replay_clause b (StartAfterC v) q = q_startAfter b q v"
| "replay_clause b (EndAtC v) q = q_endAt b q v"
| "replay_clause b (EndBeforeC v) q = q_endBefore b q v"
| "replay_clause b (LimitC n) q = q_limit b q n"

fun replay :: "('q, 'e) QueryBuilder \<Rightarrow> clause list \<Rightarrow> 'q \<Rightarrow> 'e thrown + 'q" where
  "replay b [] q = Inr q"
| "replay b (c # cs) q = and_then (client_call (replay_clause b c q)) (replay b cs)"

section \<open>The document-database client\<close>

text \<open>A document, and an entity of the application: its fields by name.\<close>

type_synonym document = "string \<rightharpoonup> jsval"

text \<open>\<^verbatim>\<open>item.id\<close>: the value of the field, \<^verbatim>\<open>undefined\<close> when the item has none.\<close>

definition id_of :: "document \<Rightarrow> jsval" where
  "id_of item = (case item ''id'' of None \<Rightarrow> Undefined | Some v \<Rightarrow> v)"

text \<open>\<^verbatim>\<open>DocumentChangeType\<close> of the client: the kinds of change event.\<close>

datatype DocumentChangeType = Added | Modified | Removed

text \<open>
  The methods of the client that the repository calls, as a parameter: \<open>'s\<close> is the
  state of the backing store, \<open>'r\<close> the type of document references, \<open>'q\<close> of
  queries, \<open>'o\<close> of the observables the client hands out, \<open>'e\<close> of its errors.
  A method that returns a promise takes the store and returns it with its result; a
  method that only builds a reference or an observable does not touch the store.
  \<^item> \<open>col_add path item\<close>: \<^verbatim>\<open>collection(path).add(item)\<close>
  \<^item> \<open>col_doc path id\<close>: \<^verbatim>\<open>collection(path).doc(id)\<close> and its \<^verbatim>\<open>.ref\<close>
  \<^item> \<open>col_ref path\<close>: the collection reference that \<^verbatim>\<open>collection(path, queryFn)\<close>
    passes to \<^verbatim>\<open>queryFn\<close>
  \<^item> \<open>ref_id r\<close>: \<^verbatim>\<open>docRef.id\<close>
  \<^item> \<open>ref_set\<close>, \<open>ref_update\<close>, \<open>ref_delete\<close>: \<^verbatim>\<open>set(item)\<close>,
    \<^verbatim>\<open>update(item)\<close>, \<^verbatim>\<open>delete()\<close> on a document
  \<^item> \<open>ref_get_exists r\<close>: \<^verbatim>\<open>(await docRef.get()).exists\<close>
  \<^item> \<open>doc_valueChanges r idField\<close>, \<open>doc_snapshotChanges r\<close>: the streams of one document
  \<^item> \<open>col_valueChanges q idField\<close>, \<open>col_snapshotChanges q events\<close>: the streams of
    the collection under the query \<open>q\<close>
\<close>

record ('s, 'r, 'q, 'o, 'e) Client =
  builder :: "('q, 'e) QueryBuilder"
  col_add :: "string \<Rightarrow> document \<Rightarrow> 's \<Rightarrow> ('e + 'r) \<times> 's"
  col_doc :: "string \<Rightarrow> jsval \<Rightarrow> 'e + 'r"
  col_ref :: "string \<Rightarrow> 'q"
  ref_id :: "'r \<Rightarrow> string"
  ref_set :: "'r \<Rightarrow> document \<Rightarrow> 's \<Rightarrow> ('e + unit) \<times> 's"
  ref_update :: "'r \<Rightarrow> document \<Rightarrow> 's \<Rightarrow> ('e + unit) \<times> 's"
  ref_delete :: "'r \<Rightarrow> 's \<Rightarrow> ('e + unit) \<times> 's"
  ref_get_exists :: "'r \<Rightarrow> 's \<Rightarrow> ('e + bool) \<times> 's"
  doc_valueChanges :: "'r \<Rightarrow> string \<Rightarrow> 'o"
  doc_snapshotChanges :: "'r \<Rightarrow> 'o"
  col_valueChanges :: "'q \<Rightarrow> string \<Rightarrow> 'o"
  col_snapshotChanges :: "'q \<Rightarrow> DocumentChangeType list option \<Rightarrow> 'o"

section \<open>The repository and its factory\<close>

text \<open>\<^verbatim>\<open>class FirestoreRepo\<close>: its two constructor fields, spelt as in the source.\<close>

record ('s, 'r, 'q, 'o, 'e) FirestoreRepo =
  angularFiretore :: "('s, 'r, 'q, 'o, 'e) Client"
  collectionPath :: string

text \<open>\<^verbatim>\<open>FirestoreRepoFactory.create\<close>: a repository on the factory's client.\<close>

definition create ::
  "('s, 'r, 'q, 'o, 'e) Client \<Rightarrow> string \<Rightarrow> ('s, 'r, 'q, 'o, 'e) FirestoreRepo"
where
  "create angularFirestore path =
     \<lparr>angularFiretore = angularFirestore, collectionPath = path\<rparr>"

text \<open>The \<^verbatim>\<open>return {...item, id: docRef.id}\<close> of \<^verbatim>\<open>add\<close>.\<close>

definition with_id :: "document \<Rightarrow> string \<Rightarrow> document" where
  "with_id item i = item(''id'' \<mapsto> Str i)"

text \<open>
  \<^verbatim>\<open>add(item, id?)\<close>. An omitted \<^verbatim>\<open>id\<close> is \<open>None\<close>. The result is the
  rejection of the promise (\<open>Inl\<close>) or the entity it resolves to, with the store as
  the client left it.
\<close>

definition add ::
  "('s, 'r, 'q, 'o, 'e) FirestoreRepo \<Rightarrow> document \<Rightarrow> string option \<Rightarrow> 's \<Rightarrow> ('e + document) \<times> 's"
where
  "add repo item id' s =
     (let c = angularFiretore repo; path = collectionPath repo in
      if falsy_string id'
      then
        (case col_add c path item s of
           (Inl e, s') \<Rightarrow> (Inl e, s')
         | (Inr docRef, s') \<Rightarrow> (Inr (with_id item (ref_id c docRef)), s'))
      else
        (case col_doc c path (case id' of None \<Rightarrow> Undefined | Some i \<Rightarrow> Str i) of
           Inl e \<Rightarrow> (Inl e, s)
         | Inr docRef \<Rightarrow>
             (case ref_set c docRef item s of
                (Inl e, s') \<Rightarrow> (Inl e, s')
              | (Inr u, s') \<Rightarrow> (Inr (with_id item (ref_id c docRef)), s'))))"

text \<open>\<^verbatim>\<open>delete(id)\<close>.\<close>

definition delete ::
  "('s, 'r, 'q, 'o, 'e) FirestoreRepo \<Rightarrow> string \<Rightarrow> 's \<Rightarrow> ('e + unit) \<times> 's"
where
  "delete repo id' s =
     (let c = angularFiretore repo in
      case col_doc c (collectionPath repo) (Str id') of
        Inl e \<Rightarrow> (Inl e, s)
      | Inr docRef \<Rightarrow> ref_delete c docRef s)"

text \<open>\<^verbatim>\<open>exists(id)\<close>.\<close>

definition exists ::
  "('s, 'r, 'q, 'o, 'e) FirestoreRepo \<Rightarrow> string \<Rightarrow> 's \<Rightarrow> ('e + bool) \<times> 's"
where
  "exists repo id' s =
     (let c = angularFiretore repo in
      case col_doc c (collectionPath repo) (Str id') of
        Inl e \<Rightarrow> (Inl e, s)
      | Inr docRef \<Rightarrow> ref_get_exists c docRef s)"

text \<open>
  \<^verbatim>\<open>fetch(options = {})\<close>: the client calls the query function on the collection
  reference while it builds the collection, so what the function throws is thrown by
  \<^verbatim>\<open>fetch\<close>. \<^verbatim>\<open>query || ref\<close> is the query the collection runs on.
\<close>

definition fetch ::
  "('s, 'r, 'q, 'o, 'e) FirestoreRepo \<Rightarrow> FetchOptions \<Rightarrow> 'e thrown + 'o"
where
  "fetch repo options =
     (let c = angularFiretore repo; ref = col_ref c (collectionPath repo) in
      and_then (applyOptions (builder c) options ref) (\<lambda>query.
      Inr (col_valueChanges c (or_ref query ref) ''id'')))"

text \<open>\<^verbatim>\<open>fetchSnapshots(options = {}, events?)\<close>.\<close>

definition fetchSnapshots ::
  "('s, 'r, 'q, 'o, 'e) FirestoreRepo \<Rightarrow> FetchOptions \<Rightarrow> DocumentChangeType list option
     \<Rightarrow> 'e thrown + 'o"
where
  "fetchSnapshots repo options events =
     (let c = angularFiretore repo; ref = col_ref c (collectionPath repo) in
      and_then (applyOptions (builder c) options ref) (\<lambda>query.
      Inr (col_snapshotChanges c (or_ref query ref) events)))"

text \<open>\<^verbatim>\<open>get(id)\<close>.\<close>

definition get :: "('s, 'r, 'q, 'o, 'e) FirestoreRepo \<Rightarrow> string \<Rightarrow> 'e + 'o" where
  "get repo id' =
     (let c = angularFiretore repo in
      case col_doc c (collectionPath repo) (Str id') of
        Inl e \<Rightarrow> Inl e
      | Inr docRef \<Rightarrow> Inr (doc_valueChanges c docRef ''id''))"

text \<open>\<^verbatim>\<open>getSnapshot(id)\<close>.\<close>

definition getSnapshot :: "('s, 'r, 'q, 'o, 'e) FirestoreRepo \<Rightarrow> string \<Rightarrow> 'e + 'o" where
  "getSnapshot repo id' =
     (let c = angularFiretore repo in
      case col_doc c (collectionPath repo) (Str id') of
        Inl e \<Rightarrow> Inl e
      | Inr docRef \<Rightarrow> Inr (doc_snapshotChanges c docRef))"

text \<open>\<^verbatim>\<open>update(item)\<close>: the document is the one at \<^verbatim>\<open>item.id\<close>.\<close>

definition update ::
  "('s, 'r, 'q, 'o, 'e) FirestoreRepo \<Rightarrow> document \<Rightarrow> 's \<Rightarrow> ('e + unit) \<times> 's"
where
  "update repo item s =
     (let c = angularFiretore repo in
      case col_doc c (collectionPath repo) (id_of item) of
        Inl e \<Rightarrow> (Inl e, s)
      | Inr docRef \<Rightarrow> ref_update c docRef item s)"

section \<open>An in-memory client\<close>

text \<open>
  Modelled from the spec: the document-database client (AngularFirestore) is an
  external collaborator and is not among the sources. The spec's section on external
  interfaces asks of it: create-with-generated-id, create/replace-at-explicit-id, point
  delete-by-id, point get-by-id existence check, partial-update-by-id, and a query
  builder. Its section on the repository adds that \<^verbatim>\<open>update\<close> is a partial field
  merge that fails when the identifier is absent or points to a non-existent document,
  that \<^verbatim>\<open>delete\<close> of an absent document is no error, that a generated identifier is
  non-empty, and that a limit is positive. The store below does exactly that: documents
  by collection path and identifier, a count of the identifiers generated so far, and
  whether the store's rules allow the caller's requests.
\<close>

datatype store_error = PermissionDenied | NotFound | InvalidArgument

record store =
  docs :: "string \<times> string \<rightharpoonup> document"
  generated :: nat
  allow :: bool

text \<open>
  Modelled from the spec: the identifier the client generates, here the one after
  \<open>n\<close> earlier ones; never empty, never repeated.
\<close>

definition auto_id :: "nat \<Rightarrow> string" where
  "auto_id n = CHR ''A'' # replicate n CHR ''a''"

text \<open>
  Modelled from the spec: the live streams of the client, each given by the document or
  the query it watches and the options it was asked with.
\<close>

datatype mem_stream =
  DocValues "string \<times> string" string
| DocSnapshots "string \<times> string"
| ColValues "string \<times> clause list" string
| ColSnapshots "string \<times> clause list" "DocumentChangeType list option"

text \<open>
  Modelled from the spec: chaining a clause onto a query, which is the collection path
  with the clauses chained so far.
\<close>

definition mem_append ::
  "string \<times> clause list \<Rightarrow> clause \<Rightarrow> store_error + string \<times> clause list"
where
  "mem_append q c = Inr (fst q, snd q @ [c])"

text \<open>
  Modelled from the spec: the query builder of the client. Every method chains its
  clause; a limit that is not positive is rejected.
\<close>

definition mem_builder :: "(string \<times> clause list, store_error) QueryBuilder" where
  "mem_builder =
     \<lparr>q_where = (\<lambda>q f op v. mem_append q (WhereC f op v)),
      q_orderBy = (\<lambda>q f d. mem_append q (OrderByC f d)),
      q_startAt = (\<lambda>q v. mem_append q (StartAtC v)),
      q_startAfter = (\<lambda>q v. mem_append q (StartAfterC v)),
      q_endAt = (\<lambda>q v. mem_append q (EndAtC v)),
      q_endBefore = (\<lambda>q v. mem_append q (EndBeforeC v)),
      q_limit = (\<lambda>q n. if positive_number n then mem_append q (LimitC n)
                         else Inl InvalidArgument)\<rparr>"

text \<open>
  Modelled from the spec: \<^verbatim>\<open>doc(id)\<close>. A reference needs a non-empty string as
  identifier; anything else, \<^verbatim>\<open>undefined\<close> included, is an invalid argument.
\<close>

definition mem_doc :: "string \<Rightarrow> jsval \<Rightarrow> store_error + string \<times> string" where
  "mem_doc path v =
     (case v of
        Str i \<Rightarrow> if i = [] then Inl InvalidArgument else Inr (path, i)
      | _ \<Rightarrow> Inl InvalidArgument)"

text \<open>Modelled from the spec: create-with-generated-id.\<close>

definition mem_add ::
  "string \<Rightarrow> document \<Rightarrow> store \<Rightarrow> (store_error + string \<times> string) \<times> store"
where
  "mem_add path item s =
     (if allow s
      then
        (let r = (path, auto_id (generated s)) in
         (Inr r, s\<lparr>docs := (docs s)(r \<mapsto> item), generated := Suc (generated s)\<rparr>))
      else (Inl PermissionDenied, s))"

text \<open>Modelled from the spec: create/replace-at-explicit-id.\<close>

definition mem_set ::
  "string \<times> string \<Rightarrow> document \<Rightarrow> store \<Rightarrow> (store_error + unit) \<times> store"
where
  "mem_set r item s =
     (if allow s then (Inr (), s\<lparr>docs := (docs s)(r \<mapsto> item)\<rparr>)
      else (Inl PermissionDenied, s))"

text \<open>
  Modelled from the spec: partial-update-by-id, a field merge that fails when no document
  is stored under the identifier.
\<close>

definition mem_update ::
  "string \<times> string \<Rightarrow> document \<Rightarrow> store \<Rightarrow> (store_error + unit) \<times> store"
where
  "mem_update r item s =
     (if allow s
      then
        (case docs s r of
           None \<Rightarrow> (Inl NotFound, s)
         | Some d \<Rightarrow> (Inr (), s\<lparr>docs := (docs s)(r \<mapsto> d ++ item)\<rparr>))
      else (Inl PermissionDenied, s))"

text \<open>Modelled from the spec: point delete-by-id, no error when the document is absent.\<close>

definition mem_delete :: "string \<times> string \<Rightarrow> store \<Rightarrow> (store_error + unit) \<times> store" where
  "mem_delete r s =
     (if allow s then (Inr (), s\<lparr>docs := (docs s)(r := None)\<rparr>)
      else (Inl PermissionDenied, s))"

text \<open>Modelled from the spec: point get-by-id existence check.\<close>

definition mem_get_exists ::
  "string \<times> string \<Rightarrow> store \<Rightarrow> (store_error + bool) \<times> store"
where
  "mem_get_exists r s =
     (if allow s then (Inr (docs s r \<noteq> None), s) else (Inl PermissionDenied, s))"

text \<open>Modelled from the spec: the client, assembled from the operations above.\<close>

definition memory ::
  "(store, string \<times> string, string \<times> clause list, mem_stream, store_error) Client"
where
  "memory =
     \<lparr>builder = mem_builder,
      col_add = mem_add,
      col_doc = mem_doc,
      col_ref = (\<lambda>path. (path, [])),
      ref_id = snd,
      ref_set = mem_set,
      ref_update = mem_update,
      ref_delete = mem_delete,
      ref_get_exists = mem_get_exists,
      doc_valueChanges = DocValues,
      doc_snapshotChanges = DocSnapshots,
      col_valueChanges = ColValues,
      col_snapshotChanges = ColSnapshots\<rparr>"

text \<open>
  Modelled from the spec: which documents a query matches is decided by the client,
  which is not among the sources. The spec says of it that the predicates chained by
  \<^verbatim>\<open>where\<close> combine conjunctively. What one predicate says of one document is the
  store's business and stays a parameter, \<open>holds\<close>; the other clauses order or cut the
  matching documents and do not decide which documents match.
\<close>

fun clause_holds ::
  "(string \<Rightarrow> operator \<Rightarrow> jsval \<Rightarrow> document \<Rightarrow> bool) \<Rightarrow> clause \<Rightarrow> document \<Rightarrow> bool"
where
  "clause_holds holds (WhereC f op v) d = holds f op v d"
| "clause_holds holds (OrderByC f dir) d = True"
| "clause_holds holds (StartAtC v) d = True"
| "clause_holds holds (StartAfterC v) d = True"
| "clause_holds holds (EndAtC v) d = True"
| "clause_holds holds (EndBeforeC v) d = True"
| "clause_holds holds (LimitC n) d = True"

text \<open>
  Modelled from the spec: a document matches a query when every clause of the query
  holds of it.
\<close>

definition matching ::
  "(string \<Rightarrow> operator \<Rightarrow> jsval \<Rightarrow> document \<Rightarrow> bool) \<Rightarrow> clause list \<Rightarrow> document \<Rightarrow> bool"
where
  "matching holds cs d = list_all (\<lambda>c. clause_holds holds c d) cs"

section \<open>The clauses an options object asks for\<close>

text \<open>
  The prose of the query translation, written as the list of clauses it names: one
  predicate per filter in array order; one ordering clause per sort in array order,
  followed, when there is a sort, by the cursors that are defined, in the order
  \<^verbatim>\<open>startAt\<close>, \<^verbatim>\<open>startAfter\<close>, \<^verbatim>\<open>endAt\<close>, \<^verbatim>\<open>endBefore\<close>; then the limit.
  These lists are compared below with what \<open>applyOptions\<close> does.
\<close>

definition filter_clauses :: "FetchOptions \<Rightarrow> clause list" where
  "filter_clauses options =
     (case filters options of None \<Rightarrow> [] | Some fs \<Rightarrow> map where_of fs)"

definition cursor_clauses :: "FetchOptions \<Rightarrow> clause list" where
  "cursor_clauses options =
     (if startAt options \<noteq> Undefined then [StartAtC (startAt options)] else []) @
     (if startAfter options \<noteq> Undefined then [StartAfterC (startAfter options)] else []) @
     (if endAt options \<noteq> Undefined then [EndAtC (endAt options)] else []) @
     (if endBefore options \<noteq> Undefined then [EndBeforeC (endBefore options)] else [])"

definition sort_clauses :: "FetchOptions \<Rightarrow> clause list" where
  "sort_clauses options =
     (case sorts options of
        None \<Rightarrow> []
      | Some ss \<Rightarrow> if ss = [] then [] else map orderBy_of ss @ cursor_clauses options)"

definition limit_clauses :: "FetchOptions \<Rightarrow> clause list" where
  "limit_clauses options =
     (case limit options of
        None \<Rightarrow> []
      | Some n \<Rightarrow> if truthy_number n then [LimitC n] else [])"

definition clauses_of :: "FetchOptions \<Rightarrow> clause list" where
  "clauses_of options = filter_clauses options @ sort_clauses options @ limit_clauses options"

text \<open>
  The variable \<^verbatim>\<open>query\<close> after a run of calls: what it held before when no call was
  made, the query of the last call otherwise.
\<close>

definition started :: "'q option \<Rightarrow> clause list \<Rightarrow> 'q \<Rightarrow> 'q option" where
  "started query cs q = (if cs = [] then query else Some q)"

text \<open>A run of calls on \<^verbatim>\<open>query || ref\<close>, assigned to \<^verbatim>\<open>query\<close>.\<close>

definition step ::
  "('q, 'e) QueryBuilder \<Rightarrow> clause list \<Rightarrow> 'q option \<Rightarrow> 'q \<Rightarrow> 'e thrown + 'q option"
where
  "step b cs query ref =
     and_then (replay b cs (or_ref query ref)) (\<lambda>q. Inr (started query cs q))"

section \<open>Fixtures of the test suite\<close>

text \<open>The filter, the sort, the entity and the collection path the tests use.\<close>

definition test_filter :: FilterSpecification where
  "test_filter = \<lparr>fieldName = ''name'', operator = Eq, value_f = Str ''Filtered''\<rparr>"

definition test_filter2 :: FilterSpecification where
  "test_filter2 =
     \<lparr>fieldName = ''timeStamp'', operator = Eq, value_f = Num (Finite 12345)\<rparr>"

definition test_sort :: SortSpecification where
  "test_sort = \<lparr>sortFieldName = ''timeStamp'', direction = Asc\<rparr>"

definition test_entity :: document where
  "test_entity = [''name'' \<mapsto> Str ''Test Add'', ''timeStamp'' \<mapsto> Num (Finite 12345)]"

definition test_path :: string where
  "test_path = ''test-entities''"

text \<open>A store with no documents, whose rules allow every request, and one whose rules allow none.\<close>

definition empty_store :: store where
  "empty_store = \<lparr>docs = Map.empty, generated = 0, allow = True\<rparr>"

definition locked_store :: store where
  "locked_store = \<lparr>docs = Map.empty, generated = 0, allow = False\<rparr>"

text \<open>
  The update test: a stored document, the fragment that changes its name (with the
  identifier of the document in its \<^verbatim>\<open>id\<close> field), and a store that holds the
  document.
\<close>

definition stored_entity :: document where
  "stored_entity = [''name'' \<mapsto> Str ''Test Update'', ''timeStamp'' \<mapsto> Num (Finite 12345)]"

definition changed_entity :: document where
  "changed_entity = [''id'' \<mapsto> Str ''abc123'', ''name'' \<mapsto> Str ''Test Update Changed'']"

definition one_document_store :: store where
  "one_document_store =
     \<lparr>docs = [(test_path, ''abc123'') \<mapsto> stored_entity], generated = 0, allow = True\<rparr>"

text \<open>
  For the error path of \<^verbatim>\<open>where\<close>: the in-memory client with a builder that
  rejects a membership filter (\<^verbatim>\<open>in\<close>, \<^verbatim>\<open>not-in\<close>, \<^verbatim>\<open>array-contains-any\<close>)
  whose value is not an array, one invalid query of the kind the spec leaves to the
  client to raise; and a filter it rejects.
\<close>

definition strict_builder :: "(string \<times> clause list, store_error) QueryBuilder" where
  "strict_builder =
     mem_builder\<lparr>q_where := (\<lambda>q f op v.
        if op \<in> {In, NotIn, ArrayContainsAny} \<and> (case v of Arr xs \<Rightarrow> False | _ \<Rightarrow> True)
        then Inl InvalidArgument
        else mem_append q (WhereC f op v))\<rparr>"

definition strict_memory ::
  "(store, string \<times> string, string \<times> clause list, mem_stream, store_error) Client"
where
  "strict_memory = memory\<lparr>builder := strict_builder\<rparr>"

definition bad_filter :: FilterSpecification where
  "bad_filter = \<lparr>fieldName = ''name'', operator = In, value_f = Str ''Filtered''\<rparr>"

text \<open>
  Equality on a top-level field, the one predicate the tests filter with: a reading of
  a single \<^verbatim>\<open>where\<close> clause to run the matching on.
\<close>

definition field_equals :: "string \<Rightarrow> operator \<Rightarrow> jsval \<Rightarrow> document \<Rightarrow> bool" where
  "field_equals f op v d = (op = Eq \<and> d f = Some v)"

section \<open>Sequencing and replay\<close>

lemma and_then_Inr [simp]: "and_then (Inr a) k = k a"
  by (simp add: and_then_def)

lemma and_then_Inl [simp]: "and_then (Inl e) k = Inl e"
  by (simp add: and_then_def)

lemma and_then_return [simp]: "and_then r Inr = r"
  by (cases r) simp_all

lemma and_then_assoc: "and_then (and_then r k) h = and_then r (\<lambda>a. and_then (k a) h)"
  by (cases r) simp_all

lemma or_ref_simps [simp]: "or_ref None ref = ref" "or_ref (Some q) ref = q"
  by (simp_all add: or_ref_def)

lemma started_Nil [simp]: "started query [] q = query"
  by (simp add: started_def)

lemma started_Cons [simp]: "started query (c # cs) q = Some q"
  by (simp add: started_def)

lemma replay_append: "replay b (cs @ ds) q = and_then (replay b cs q) (\<lambda>a. replay b ds a)"
proof (induction cs arbitrary: q)
  case Nil
  show ?case by simp
next
  case (Cons c cs)
  show ?case
    by (cases "client_call (replay_clause b c q)") (simp_all add: Cons.IH)
qed

lemma applyFilters_loop_replay:
  "applyFilters_loop b fs query ref =
     (if fs = [] then Inr query
      else and_then (replay b (map where_of fs) (or_ref query ref)) (\<lambda>q. Inr (Some q)))"
proof (induction fs arbitrary: query)
  case Nil
  show ?case by simp
next
  case (Cons f fs)
  show ?case
    by (cases "client_call (q_where b (or_ref query ref) (fieldName f) (operator f) (value_f f))")
       (simp_all add: Cons.IH where_of_def)
qed

lemma applySorts_loop_replay:
  "applySorts_loop b ss query ref =
     (if ss = [] then Inr query
      else and_then (replay b (map orderBy_of ss) (or_ref query ref)) (\<lambda>q. Inr (Some q)))"
proof (induction ss arbitrary: query)
  case Nil
  show ?case by simp
next
  case (Cons x ss)
  show ?case
    by (cases "client_call (q_orderBy b (or_ref query ref) (sortFieldName x) (direction x))")
       (simp_all add: Cons.IH orderBy_of_def)
qed

lemma applyFilters_replay:
  "applyFilters b options query ref = step b (filter_clauses options) query ref"
  by (cases "filters options")
     (simp_all add: applyFilters_def filter_clauses_def applyFilters_loop_replay started_def
        step_def)

lemma applyLimit_replay:
  "applyLimit b options query ref = step b (limit_clauses options) query ref"
proof (cases "limit options")
  case None
  then show ?thesis by (simp add: applyLimit_def limit_clauses_def step_def)
next
  case (Some n)
  then show ?thesis
    by (cases "client_call (q_limit b (or_ref query ref) n)")
       (simp_all add: applyLimit_def limit_clauses_def step_def)
qed

lemma applyCursor_startAt:
  "applyCursor (q_startAt b) v (Some q) =
     and_then (replay b (if v \<noteq> Undefined then [StartAtC v] else []) q) (\<lambda>q'. Inr (Some q'))"
  by (cases "client_call (q_startAt b q v)") (simp_all add: applyCursor_def call_on_def)

lemma applyCursor_startAfter:
  "applyCursor (q_startAfter b) v (Some q) =
     and_then (replay b (if v \<noteq> Undefined then [StartAfterC v] else []) q) (\<lambda>q'. Inr (Some q'))"
  by (cases "client_call (q_startAfter b q v)") (simp_all add: applyCursor_def call_on_def)

lemma applyCursor_endAt:
  "applyCursor (q_endAt b) v (Some q) =
     and_then (replay b (if v \<noteq> Undefined then [EndAtC v] else []) q) (\<lambda>q'. Inr (Some q'))"
  by (cases "client_call (q_endAt b q v)") (simp_all add: applyCursor_def call_on_def)

lemma applyCursor_endBefore:
  "applyCursor (q_endBefore b) v (Some q) =
     and_then (replay b (if v \<noteq> Undefined then [EndBeforeC v] else []) q) (\<lambda>q'. Inr (Some q'))"
  by (cases "client_call (q_endBefore b q v)") (simp_all add: applyCursor_def call_on_def)

lemma cursors_replay:
  "and_then (applyCursor (q_startAt b) (startAt options) (Some q)) (\<lambda>q2.
   and_then (applyCursor (q_startAfter b) (startAfter options) q2) (\<lambda>q3.
   and_then (applyCursor (q_endAt b) (endAt options) q3) (\<lambda>q4.
   applyCursor (q_endBefore b) (endBefore options) q4))) =
   and_then (replay b (cursor_clauses options) q) (\<lambda>q'. Inr (Some q'))"
  unfolding cursor_clauses_def replay_append and_then_assoc
    applyCursor_startAt applyCursor_startAfter applyCursor_endAt applyCursor_endBefore
    and_then_Inr
  by (rule refl)

lemma applySorts_replay:
  "applySorts b options query ref = step b (sort_clauses options) query ref"
proof (cases "sorts options")
  case None
  then show ?thesis by (simp add: applySorts_def sort_clauses_def step_def)
next
  case (Some ss)
  show ?thesis
  proof (cases "ss = []")
    case True
    with Some show ?thesis by (simp add: applySorts_def sort_clauses_def step_def)
  next
    case False
    then have ne: "map orderBy_of ss @ cursor_clauses options \<noteq> []" by simp
    have "applySorts b options query ref =
      and_then (replay b (map orderBy_of ss) (or_ref query ref)) (\<lambda>q.
      and_then (replay b (cursor_clauses options) q) (\<lambda>q'. Inr (Some q')))"
      using Some False
      by (simp add: applySorts_def applySorts_loop_replay and_then_assoc cursors_replay)
    also have "\<dots> =
      and_then (replay b (map orderBy_of ss @ cursor_clauses options) (or_ref query ref))
        (\<lambda>q'. Inr (Some q'))"
      by (simp add: replay_append and_then_assoc)
    finally show ?thesis
      using Some False ne by (simp add: sort_clauses_def started_def step_def)
  qed
qed

lemma step_Nil [simp]: "step b [] query ref = Inr query"
  by (simp add: step_def)

lemma step_Some:
  "step b ds (Some q) ref = and_then (replay b ds q) (\<lambda>q'. Inr (Some q'))"
  by (cases ds) (simp_all add: step_def started_def)

lemma step_append:
  "and_then (step b cs query ref) (\<lambda>q1. step b ds q1 ref) = step b (cs @ ds) query ref"
proof (cases "cs = []")
  case True
  then show ?thesis by simp
next
  case False
  then have "and_then (step b cs query ref) (\<lambda>q1. step b ds q1 ref) =
      and_then (replay b cs (or_ref query ref)) (\<lambda>q. step b ds (Some q) ref)"
    by (simp add: step_def started_def and_then_assoc)
  also have "\<dots> = and_then (replay b (cs @ ds) (or_ref query ref)) (\<lambda>q'. Inr (Some q'))"
    by (simp add: step_Some replay_append and_then_assoc)
  also have "\<dots> = step b (cs @ ds) query ref"
    using False by (simp add: step_def started_def)
  finally show ?thesis .
qed

text \<open>
  On any builder, \<open>applyOptions\<close> makes exactly the calls of \<open>clauses_of\<close>, in that
  order, starting from the collection reference, and returns \<^verbatim>\<open>null\<close> when it
  made none.
\<close>

lemma applyOptions_replay:
  "applyOptions b options ref =
     and_then (replay b (clauses_of options) ref)
       (\<lambda>q. Inr (started None (clauses_of options) q))"
proof -
  have "applyOptions b options ref =
      and_then (step b (filter_clauses options) None ref) (\<lambda>q1.
      and_then (step b (sort_clauses options) q1 ref) (\<lambda>q2.
      step b (limit_clauses options) q2 ref))"
    by (simp add: applyOptions_def applyFilters_replay applySorts_replay applyLimit_replay)
  also have "\<dots> = step b (clauses_of options) None ref"
    by (simp add: step_append clauses_of_def)
  finally show ?thesis by (simp add: step_def)
qed

lemma replay_clause_recording: "replay_clause recording c q = Inr (q @ [c])"
  by (cases c) (simp_all add: recording_def)

lemma replay_recording: "replay recording cs q = Inr (q @ cs)"
  by (induction cs arbitrary: q) (simp_all add: replay_clause_recording client_call_def)

lemma applyOptions_recording:
  "applyOptions recording options ref =
     Inr (if clauses_of options = [] then None else Some (ref @ clauses_of options))"
  by (simp add: applyOptions_replay replay_recording started_def)

section \<open>Options without sorts\<close>

lemma cursor_free_clauses:
  assumes "sorts options = None \<or> sorts options = Some []"
  shows "clauses_of options = filter_clauses options @ limit_clauses options"
  using assms by (auto simp: clauses_of_def sort_clauses_def)

lemma filter_clauses_no_cursor: "c \<in> set (filter_clauses options) \<Longrightarrow> \<not> is_cursor c"
  by (auto simp: filter_clauses_def where_of_def split: option.splits)

lemma limit_clauses_no_cursor: "c \<in> set (limit_clauses options) \<Longrightarrow> \<not> is_cursor c"
  by (auto simp: limit_clauses_def split: option.splits if_splits)

text \<open>
  C1. When the options hold no sort specification (\<^verbatim>\<open>sorts\<close> absent or the empty
  array), no pagination cursor is attached to the query, whatever the cursor values:
  on any builder, replacing the four cursor values by any others gives the same result
  of \<open>applyOptions\<close>, and the query recorded for the options holds no
  \<^verbatim>\<open>startAt\<close>, \<^verbatim>\<open>startAfter\<close>, \<^verbatim>\<open>endAt\<close> or \<^verbatim>\<open>endBefore\<close> clause.
\<close>

theorem cursors_ignored_without_sorts:
  assumes "sorts options = None \<or> sorts options = Some []"
  shows "applyOptions b (options\<lparr>startAt := sAt, startAfter := sAfter, endAt := eAt, endBefore := eBefore\<rparr>) ref
           = applyOptions b options ref
       \<and> (\<exists>query. applyOptions recording options [] = Inr query
             \<and> (\<forall>c \<in> set (or_ref query []). \<not> is_cursor c))"
proof
  let ?options' = "options\<lparr>startAt := sAt, startAfter := sAfter, endAt := eAt, endBefore := eBefore\<rparr>"
  have "sorts ?options' = None \<or> sorts ?options' = Some []"
    using assms by simp
  then have "clauses_of ?options' = filter_clauses ?options' @ limit_clauses ?options'"
    by (rule cursor_free_clauses)
  also have "\<dots> = filter_clauses options @ limit_clauses options"
    by (simp add: filter_clauses_def limit_clauses_def)
  also have "\<dots> = clauses_of options"
    using assms by (simp add: cursor_free_clauses)
  finally show "applyOptions b ?options' ref = applyOptions b options ref"
    by (simp add: applyOptions_replay)
next
  have "\<forall>c \<in> set (clauses_of options). \<not> is_cursor c"
    using assms filter_clauses_no_cursor limit_clauses_no_cursor
    by (auto simp: cursor_free_clauses)
  then show "\<exists>query. applyOptions recording options [] = Inr query
             \<and> (\<forall>c \<in> set (or_ref query []). \<not> is_cursor c)"
    by (simp add: applyOptions_recording)
qed

text \<open>
  The options \<^verbatim>\<open>{filters: [name == 'Filtered'], sorts: [], limit: 2}\<close> with all four
  cursors supplied build the query of the same options without cursors.
\<close>

theorem cursors_ignored_without_sorts_witness:
  "applyOptions recording
     \<lparr>endAt = Null, endBefore = Str ''z'', filters = Some [test_filter], limit = Some (Finite 2),
      sorts = Some [], startAfter = Num (Finite 12345), startAt = Num (Finite 12346)\<rparr> []
   = Inr (Some [WhereC ''name'' Eq (Str ''Filtered''), LimitC (Finite 2)])"
proof -
  let ?plain = "\<lparr>endAt = Undefined, endBefore = Undefined, filters = Some [test_filter],
      limit = Some (Finite 2), sorts = Some [], startAfter = Undefined, startAt = Undefined\<rparr>"
  have h: "sorts ?plain = None \<or> sorts ?plain = Some []"
    by simp
  have "applyOptions recording ?plain [] =
      Inr (Some [WhereC ''name'' Eq (Str ''Filtered''), LimitC (Finite 2)])"
    by (simp add: applyOptions_recording clauses_of_def filter_clauses_def sort_clauses_def
        limit_clauses_def where_of_def test_filter_def)
  with cursors_ignored_without_sorts
    [OF h, where b = recording and ref = "[]" and sAt = "Num (Finite 12346)"
       and sAfter = "Num (Finite 12345)" and eAt = Null and eBefore = "Str ''z''"]
  show ?thesis by simp
qed

section \<open>The limit\<close>

lemma sort_clauses_limit_update [simp]:
  "sort_clauses (options\<lparr>limit := l\<rparr>) = sort_clauses options"
  by (simp add: sort_clauses_def cursor_clauses_def split: option.split)

lemma clauses_of_without_limit:
  "clauses_of (options\<lparr>limit := None\<rparr>) = filter_clauses options @ sort_clauses options"
  by (simp add: clauses_of_def filter_clauses_def limit_clauses_def)

lemma filter_clauses_no_limit: "c \<in> set (filter_clauses options) \<Longrightarrow> \<not> is_limit c"
  by (auto simp: filter_clauses_def where_of_def split: option.splits)

lemma sort_clauses_no_limit: "c \<in> set (sort_clauses options) \<Longrightarrow> \<not> is_limit c"
  by (auto simp: sort_clauses_def cursor_clauses_def orderBy_of_def
      split: option.splits if_splits)

lemma limit_clauses_without_limit [simp]: "limit_clauses (options\<lparr>limit := None\<rparr>) = []"
  by (simp add: limit_clauses_def)

lemma filter_clauses_limit_update [simp]:
  "filter_clauses (options\<lparr>limit := l\<rparr>) = filter_clauses options"
  by (simp add: filter_clauses_def)

lemma limit_is_last_call:
  "applyOptions b options ref =
     and_then (applyOptions b (options\<lparr>limit := None\<rparr>) ref) (\<lambda>before.
       case limit options of
         None \<Rightarrow> Inr before
       | Some n \<Rightarrow>
           if truthy_number n
           then and_then (client_call (q_limit b (or_ref before ref) n)) (\<lambda>q. Inr (Some q))
           else Inr before)"
proof -
  have "applyOptions b options ref =
      and_then (applyFilters b options None ref) (\<lambda>q1.
      and_then (applySorts b options q1 ref) (\<lambda>q2. applyLimit b options q2 ref))"
    by (simp add: applyOptions_def)
  also have "\<dots> =
      and_then (and_then (applyFilters b options None ref) (\<lambda>q1. applySorts b options q1 ref))
        (\<lambda>q2. applyLimit b options q2 ref)"
    by (simp add: and_then_assoc)
  also have "and_then (applyFilters b options None ref) (\<lambda>q1. applySorts b options q1 ref)
      = applyOptions b (options\<lparr>limit := None\<rparr>) ref"
    by (simp add: applyOptions_def applyFilters_replay applySorts_replay applyLimit_replay)
  finally show ?thesis
    by (simp add: applyLimit_def)
qed

text \<open>
  C2, as stated, fails: the options \<^verbatim>\<open>{limit: -1}\<close> attach the clause
  \<^verbatim>\<open>limit(-1)\<close>, and \<open>-1\<close> is not a positive number. The guard of
  \<^verbatim>\<open>applyLimit\<close> is \<^verbatim>\<open>if (options.limit)\<close>, which tests truthiness.
\<close>

theorem negative_limit_is_attached:
  "applyOptions recording (emptyOptions\<lparr>limit := Some (Finite (- 1))\<rparr>) []
     = Inr (Some [LimitC (Finite (- 1))])
   \<and> \<not> positive_number (Finite (- 1))"
  by (simp add: applyOptions_recording clauses_of_def filter_clauses_def sort_clauses_def
      limit_clauses_def emptyOptions_def)

text \<open>
  C2, amended. \<open>applyOptions\<close> attaches a limit clause if and only if the supplied
  limit is truthy, that is present and neither \<open>0\<close>, \<open>-0\<close> nor \<open>NaN\<close> (a negative
  limit is attached as well); the limit clause, when attached, is the last clause,
  after the filters, sorts and cursors. In the statement, \<open>before\<close> is the query
  built for the same options without a limit: it holds no limit clause, and the query
  built for the options is \<open>before\<close> itself when the limit is not truthy, and
  \<open>before\<close> followed by the limit clause when it is. The last conjunct says the
  same of any builder: the call of \<^verbatim>\<open>limit\<close> is made after all other calls, on the
  query they built, and only for a truthy limit.
\<close>

theorem limit_attached_last_iff_truthy:
  "(\<exists>before.
     applyOptions recording (options\<lparr>limit := None\<rparr>) [] = Inr before
   \<and> (\<forall>c \<in> set (or_ref before []). \<not> is_limit c)
   \<and> applyOptions recording options [] =
       Inr (case limit options of
              None \<Rightarrow> before
            | Some n \<Rightarrow> if truthy_number n then Some (or_ref before [] @ [LimitC n]) else before))
   \<and> applyOptions b options ref =
       and_then (applyOptions b (options\<lparr>limit := None\<rparr>) ref) (\<lambda>before.
         case limit options of
           None \<Rightarrow> Inr before
         | Some n \<Rightarrow>
             if truthy_number n
             then and_then (client_call (q_limit b (or_ref before ref) n)) (\<lambda>q. Inr (Some q))
             else Inr before)"
proof -
  let ?cs = "filter_clauses options @ sort_clauses options"
  let ?before = "if ?cs = [] then None else Some ?cs"
  have 1: "applyOptions recording (options\<lparr>limit := None\<rparr>) [] = Inr ?before"
    by (simp add: applyOptions_recording clauses_of_without_limit)
  have 2: "\<forall>c \<in> set (or_ref ?before []). \<not> is_limit c"
    using filter_clauses_no_limit sort_clauses_no_limit by auto
  have 3: "applyOptions recording options [] =
       Inr (case limit options of
              None \<Rightarrow> ?before
            | Some n \<Rightarrow> if truthy_number n then Some (or_ref ?before [] @ [LimitC n]) else ?before)"
    by (simp add: applyOptions_recording clauses_of_def limit_clauses_def split: option.splits)
  from 1 2 3 have "\<exists>before.
     applyOptions recording (options\<lparr>limit := None\<rparr>) [] = Inr before
   \<and> (\<forall>c \<in> set (or_ref before []). \<not> is_limit c)
   \<and> applyOptions recording options [] =
       Inr (case limit options of
              None \<Rightarrow> before
            | Some n \<Rightarrow> if truthy_number n then Some (or_ref before [] @ [LimitC n]) else before)"
    by blast
  then show ?thesis
    using limit_is_last_call [of b options ref] by (rule conjI)
qed

text \<open>
  The options \<^verbatim>\<open>{filters: [name == 'Filtered'], sorts: [timeStamp asc],
  startAfter: 12345, limit: 2}\<close>: the limit clause comes last.
\<close>

theorem limit_attached_last_iff_truthy_witness:
  "applyOptions recording
     \<lparr>endAt = Undefined, endBefore = Undefined, filters = Some [test_filter],
      limit = Some (Finite 2), sorts = Some [test_sort], startAfter = Num (Finite 12345),
      startAt = Undefined\<rparr> []
   = Inr (Some [WhereC ''name'' Eq (Str ''Filtered''), OrderByC ''timeStamp'' Asc,
                StartAfterC (Num (Finite 12345)), LimitC (Finite 2)])"
proof -
  let ?options = "\<lparr>endAt = Undefined, endBefore = Undefined, filters = Some [test_filter],
      limit = Some (Finite 2), sorts = Some [test_sort], startAfter = Num (Finite 12345),
      startAt = Undefined\<rparr>"
  from limit_attached_last_iff_truthy [where options = ?options and b = recording and ref = "[]"]
  obtain before where
    a: "applyOptions recording (?options\<lparr>limit := None\<rparr>) [] = Inr before" and
    c: "applyOptions recording ?options [] =
          Inr (case limit ?options of
                 None \<Rightarrow> before
               | Some n \<Rightarrow>
                   if truthy_number n then Some (or_ref before [] @ [LimitC n]) else before)"
    by blast
  have "applyOptions recording (?options\<lparr>limit := None\<rparr>) [] =
      Inr (Some [WhereC ''name'' Eq (Str ''Filtered''), OrderByC ''timeStamp'' Asc,
                 StartAfterC (Num (Finite 12345))])"
    by (simp add: applyOptions_recording clauses_of_def filter_clauses_def sort_clauses_def
        cursor_clauses_def limit_clauses_def where_of_def orderBy_of_def test_filter_def
        test_sort_def)
  with a have "before = Some [WhereC ''name'' Eq (Str ''Filtered''), OrderByC ''timeStamp'' Asc,
                 StartAfterC (Num (Finite 12345))]"
    by simp
  with c show ?thesis by simp
qed

section \<open>Options that build no query\<close>

lemma clauses_of_empty:
  assumes "filters options = None \<or> filters options = Some []"
    and "sorts options = None \<or> sorts options = Some []"
    and "limit options = None \<or> limit options = Some (Finite 0)"
  shows "clauses_of options = []"
  using assms by (auto simp: clauses_of_def filter_clauses_def sort_clauses_def limit_clauses_def)

lemma applyOptions_none:
  assumes "clauses_of options = []"
  shows "applyOptions b options ref = Inr None"
  using assms by (simp add: applyOptions_replay)

lemma applyOptions_some:
  assumes "clauses_of options = cs" and "cs \<noteq> []"
  shows "applyOptions b options ref = and_then (replay b cs ref) (\<lambda>q. Inr (Some q))"
  using assms by (simp add: applyOptions_replay started_def)

lemma fetch_no_override:
  assumes "applyOptions (builder (angularFiretore repo)) options
             (col_ref (angularFiretore repo) (collectionPath repo)) = Inr None"
  shows "fetch repo options =
           Inr (col_valueChanges (angularFiretore repo)
                  (col_ref (angularFiretore repo) (collectionPath repo)) ''id'')"
  using assms by (simp add: fetch_def Let_def)

lemma fetchSnapshots_no_override:
  assumes "applyOptions (builder (angularFiretore repo)) options
             (col_ref (angularFiretore repo) (collectionPath repo)) = Inr None"
  shows "fetchSnapshots repo options events =
           Inr (col_snapshotChanges (angularFiretore repo)
                  (col_ref (angularFiretore repo) (collectionPath repo)) events)"
  using assms by (simp add: fetchSnapshots_def Let_def)

text \<open>
  C4. When no filters, no sorts and no limit are supplied, \<open>applyOptions\<close> yields no
  query override: it returns \<^verbatim>\<open>null\<close> on any builder, whatever the cursor values,
  and \<^verbatim>\<open>fetch\<close> and \<^verbatim>\<open>fetchSnapshots\<close> hand the client's base collection
  reference, unmodified, to the client's stream methods: an unfiltered, unsorted scan
  of the collection.
\<close>

theorem no_options_no_query_override:
  assumes "filters options = None" and "sorts options = None" and "limit options = None"
  shows "applyOptions b options ref = Inr None
       \<and> applyOptions recording options [] = Inr None
       \<and> fetch repo options =
           Inr (col_valueChanges (angularFiretore repo)
                  (col_ref (angularFiretore repo) (collectionPath repo)) ''id'')
       \<and> fetchSnapshots repo options events =
           Inr (col_snapshotChanges (angularFiretore repo)
                  (col_ref (angularFiretore repo) (collectionPath repo)) events)"
proof -
  have "clauses_of options = []"
    using assms by (simp add: clauses_of_empty)
  then show ?thesis
    by (simp add: applyOptions_none fetch_no_override fetchSnapshots_no_override)
qed

text \<open>\<^verbatim>\<open>fetch()\<close> and \<^verbatim>\<open>fetchSnapshots()\<close> of the tests, on the in-memory client.\<close>

theorem no_options_no_query_override_witness:
  "fetch (create memory test_path) emptyOptions = Inr (ColValues (test_path, []) ''id'')
   \<and> fetchSnapshots (create memory test_path) emptyOptions (Some [Added])
       = Inr (ColSnapshots (test_path, []) (Some [Added]))"
proof -
  have h: "filters emptyOptions = None" "sorts emptyOptions = None" "limit emptyOptions = None"
    by (simp_all add: emptyOptions_def)
  from no_options_no_query_override [OF h, where repo = "create memory test_path"
      and events = "Some [Added]" and b = recording and ref = "[]"]
  show ?thesis by (simp add: create_def memory_def)
qed

text \<open>
  C10. \<open>applyOptions\<close> treats an empty filters array, an empty sorts array and a
  limit of zero as it treats their absence: for \<^verbatim>\<open>{filters: [], sorts: [], limit: 0}\<close>
  and every combination of these with absent fields it returns \<^verbatim>\<open>null\<close>, as it
  does for the empty options object, and \<^verbatim>\<open>fetch\<close> and \<^verbatim>\<open>fetchSnapshots\<close>
  use the unmodified base collection reference.
\<close>

theorem empty_and_zero_as_absent:
  assumes "filters options = None \<or> filters options = Some []"
    and "sorts options = None \<or> sorts options = Some []"
    and "limit options = None \<or> limit options = Some (Finite 0)"
  shows "applyOptions b options ref = Inr None
       \<and> applyOptions b options ref = applyOptions b emptyOptions ref
       \<and> fetch repo options =
           Inr (col_valueChanges (angularFiretore repo)
                  (col_ref (angularFiretore repo) (collectionPath repo)) ''id'')
       \<and> fetchSnapshots repo options events =
           Inr (col_snapshotChanges (angularFiretore repo)
                  (col_ref (angularFiretore repo) (collectionPath repo)) events)"
proof -
  have "clauses_of options = []"
    using assms by (rule clauses_of_empty)
  moreover have "clauses_of emptyOptions = []"
    by (simp add: clauses_of_empty emptyOptions_def)
  ultimately show ?thesis
    by (simp add: applyOptions_none fetch_no_override fetchSnapshots_no_override)
qed

text \<open>The options \<^verbatim>\<open>{filters: [], sorts: [], limit: 0}\<close>.\<close>

theorem empty_and_zero_as_absent_witness:
  "applyOptions recording
     \<lparr>endAt = Undefined, endBefore = Undefined, filters = Some [], limit = Some (Finite 0),
      sorts = Some [], startAfter = Undefined, startAt = Undefined\<rparr> [] = Inr None
   \<and> fetch (create memory test_path)
       \<lparr>endAt = Undefined, endBefore = Undefined, filters = Some [], limit = Some (Finite 0),
        sorts = Some [], startAfter = Undefined, startAt = Undefined\<rparr>
       = Inr (ColValues (test_path, []) ''id'')"
proof -
  let ?options = "\<lparr>endAt = Undefined, endBefore = Undefined, filters = Some [],
      limit = Some (Finite 0), sorts = Some [], startAfter = Undefined, startAt = Undefined\<rparr>"
  have h: "filters ?options = None \<or> filters ?options = Some []"
    "sorts ?options = None \<or> sorts ?options = Some []"
    "limit ?options = None \<or> limit ?options = Some (Finite 0)"
    by simp_all
  from empty_and_zero_as_absent [OF h, where repo = "create memory test_path"
      and b = recording and ref = "[]"]
  show ?thesis by (simp add: create_def memory_def)
qed

section \<open>Options with sorts\<close>

text \<open>
  C6. When the options hold at least one sort, the query built is: the filters, the
  ordering clauses, then the cursors in the fixed sequence \<^verbatim>\<open>startAt\<close>,
  \<^verbatim>\<open>startAfter\<close>, \<^verbatim>\<open>endAt\<close>, \<^verbatim>\<open>endBefore\<close>, each attached exactly when its
  value is not \<^verbatim>\<open>undefined\<close> and independently of the other three, then the limit.
  No combination of cursors is rejected. The first conjunct reads the clauses off the
  recording builder; the second says that any builder receives the same calls in the
  same order.
\<close>

theorem cursors_attached_in_fixed_sequence:
  assumes "sorts options = Some ss" and "ss \<noteq> []"
  shows "applyOptions recording options [] =
           Inr (Some (filter_clauses options @ map orderBy_of ss @
             (if startAt options \<noteq> Undefined then [StartAtC (startAt options)] else []) @
             (if startAfter options \<noteq> Undefined then [StartAfterC (startAfter options)] else []) @
             (if endAt options \<noteq> Undefined then [EndAtC (endAt options)] else []) @
             (if endBefore options \<noteq> Undefined then [EndBeforeC (endBefore options)] else []) @
             limit_clauses options))
       \<and> applyOptions b options ref =
           and_then (replay b (filter_clauses options @ map orderBy_of ss @
             (if startAt options \<noteq> Undefined then [StartAtC (startAt options)] else []) @
             (if startAfter options \<noteq> Undefined then [StartAfterC (startAfter options)] else []) @
             (if endAt options \<noteq> Undefined then [EndAtC (endAt options)] else []) @
             (if endBefore options \<noteq> Undefined then [EndBeforeC (endBefore options)] else []) @
             limit_clauses options) ref) (\<lambda>q. Inr (Some q))"
proof -
  let ?cs = "filter_clauses options @ map orderBy_of ss @
             (if startAt options \<noteq> Undefined then [StartAtC (startAt options)] else []) @
             (if startAfter options \<noteq> Undefined then [StartAfterC (startAfter options)] else []) @
             (if endAt options \<noteq> Undefined then [EndAtC (endAt options)] else []) @
             (if endBefore options \<noteq> Undefined then [EndBeforeC (endBefore options)] else []) @
             limit_clauses options"
  have "sort_clauses options = map orderBy_of ss @ cursor_clauses options"
    using assms by (simp add: sort_clauses_def)
  then have eq: "clauses_of options = ?cs"
    by (simp add: clauses_of_def cursor_clauses_def)
  have ne: "?cs \<noteq> []"
    using assms by simp
  have "applyOptions recording options [] = Inr (Some ?cs)"
    using eq ne by (simp add: applyOptions_recording)
  moreover have "applyOptions b options ref = and_then (replay b ?cs ref) (\<lambda>q. Inr (Some q))"
    using eq ne by (rule applyOptions_some)
  ultimately show ?thesis by (rule conjI)
qed

text \<open>A sort with all four cursors supplied, and the same sort with \<^verbatim>\<open>endAt\<close> alone.\<close>

theorem cursors_attached_in_fixed_sequence_witness:
  "applyOptions recording
     \<lparr>endAt = Num (Finite 12347), endBefore = Null, filters = None, limit = None,
      sorts = Some [test_sort], startAfter = Num (Finite 12345),
      startAt = Num (Finite 12346)\<rparr> []
   = Inr (Some [OrderByC ''timeStamp'' Asc, StartAtC (Num (Finite 12346)),
                StartAfterC (Num (Finite 12345)), EndAtC (Num (Finite 12347)),
                EndBeforeC Null])
   \<and> applyOptions recording
     \<lparr>endAt = Num (Finite 12347), endBefore = Undefined, filters = None, limit = None,
      sorts = Some [test_sort], startAfter = Undefined, startAt = Undefined\<rparr> []
   = Inr (Some [OrderByC ''timeStamp'' Asc, EndAtC (Num (Finite 12347))])"
proof -
  let ?all = "\<lparr>endAt = Num (Finite 12347), endBefore = Null, filters = None, limit = None,
      sorts = Some [test_sort], startAfter = Num (Finite 12345),
      startAt = Num (Finite 12346)\<rparr>"
  let ?one = "\<lparr>endAt = Num (Finite 12347), endBefore = Undefined, filters = None,
      limit = None, sorts = Some [test_sort], startAfter = Undefined, startAt = Undefined\<rparr>"
  have h: "sorts ?all = Some [test_sort]" "sorts ?one = Some [test_sort]" "[test_sort] \<noteq> []"
    by simp_all
  from cursors_attached_in_fixed_sequence [OF h(1) h(3), where b = recording and ref = "[]"]
    cursors_attached_in_fixed_sequence [OF h(2) h(3), where b = recording and ref = "[]"]
  show ?thesis
    by (simp add: filter_clauses_def limit_clauses_def orderBy_of_def test_sort_def)
qed

section \<open>Filters\<close>

lemma matching_append:
  "matching holds (cs @ ds) d = (matching holds cs d \<and> matching holds ds d)"
  by (simp add: matching_def)

lemma matching_wheres:
  "matching holds (map where_of fs) d =
     (\<forall>f \<in> set fs. holds (fieldName f) (operator f) (value_f f) d)"
  by (induction fs) (simp_all add: matching_def where_of_def)

lemma matching_sort_clauses: "matching holds (sort_clauses options) d"
  by (auto simp: matching_def sort_clauses_def cursor_clauses_def orderBy_of_def list_all_iff
      split: option.splits)

lemma matching_limit_clauses: "matching holds (limit_clauses options) d"
  by (auto simp: matching_def limit_clauses_def split: option.splits)

lemma filter_where_wheres: "filter is_where (map where_of fs) = map where_of fs"
  by (induction fs) (simp_all add: where_of_def)

lemma filter_other_wheres: "filter (\<lambda>c. \<not> is_where c) (map where_of fs) = []"
  by (induction fs) (simp_all add: where_of_def)

lemma filter_where_sort_clauses: "filter is_where (sort_clauses options) = []"
  by (auto simp: sort_clauses_def cursor_clauses_def orderBy_of_def filter_empty_conv
      split: option.splits)

lemma filter_where_limit_clauses: "filter is_where (limit_clauses options) = []"
  by (auto simp: limit_clauses_def split: option.splits)

lemma clauses_of_filters_update:
  "clauses_of (options\<lparr>filters := Some fs\<rparr>) =
     map where_of fs @ sort_clauses options @ limit_clauses options"
  by (simp add: clauses_of_def filter_clauses_def sort_clauses_def cursor_clauses_def
      limit_clauses_def split: option.split)

lemma recorded_query:
  "or_ref (if cs = [] then None else Some cs) [] = cs"
  by simp

text \<open>
  C5. For every filter array \<open>fs\<close> and every permutation \<open>fs'\<close> of it: the query
  built holds one \<^verbatim>\<open>where\<close> clause per filter, in the order of the array it was
  built from; the other clauses are the same for both arrays; a document matches the
  query exactly when every filter holds of it (logical AND); and the two queries match
  the same documents, so the matching result set within any collection is the same.
\<close>

theorem filters_conjunctive_in_any_order:
  assumes "mset fs' = mset fs"
  shows "\<exists>query query'.
      applyOptions recording (options\<lparr>filters := Some fs\<rparr>) [] = Inr query
    \<and> applyOptions recording (options\<lparr>filters := Some fs'\<rparr>) [] = Inr query'
    \<and> filter is_where (or_ref query []) = map where_of fs
    \<and> filter is_where (or_ref query' []) = map where_of fs'
    \<and> filter (\<lambda>c. \<not> is_where c) (or_ref query' []) = filter (\<lambda>c. \<not> is_where c) (or_ref query [])
    \<and> (\<forall>d. matching holds (or_ref query []) d
             = (\<forall>f \<in> set fs. holds (fieldName f) (operator f) (value_f f) d))
    \<and> (\<forall>d. matching holds (or_ref query' []) d = matching holds (or_ref query []) d)
    \<and> {d \<in> collection. matching holds (or_ref query' []) d}
        = {d \<in> collection. matching holds (or_ref query []) d}"
proof -
  let ?rest = "sort_clauses options @ limit_clauses options"
  let ?cs = "map where_of fs @ ?rest"
  let ?cs' = "map where_of fs' @ ?rest"
  let ?query = "if ?cs = [] then None else Some ?cs"
  let ?query' = "if ?cs' = [] then None else Some ?cs'"
  have same_set: "set fs' = set fs"
    using assms by (rule mset_eq_setD)
  have q: "or_ref ?query [] = ?cs" and q': "or_ref ?query' [] = ?cs'"
    by (rule recorded_query)+
  have 1: "applyOptions recording (options\<lparr>filters := Some fs\<rparr>) [] = Inr ?query"
    by (simp add: applyOptions_recording clauses_of_filters_update)
  have 2: "applyOptions recording (options\<lparr>filters := Some fs'\<rparr>) [] = Inr ?query'"
    by (simp add: applyOptions_recording clauses_of_filters_update)
  have 3: "filter is_where (or_ref ?query []) = map where_of fs"
    unfolding q
    by (simp add: filter_where_wheres filter_where_sort_clauses filter_where_limit_clauses)
  have 4: "filter is_where (or_ref ?query' []) = map where_of fs'"
    unfolding q'
    by (simp add: filter_where_wheres filter_where_sort_clauses filter_where_limit_clauses)
  have 5: "filter (\<lambda>c. \<not> is_where c) (or_ref ?query' [])
         = filter (\<lambda>c. \<not> is_where c) (or_ref ?query [])"
    unfolding q q' by (simp add: filter_other_wheres)
  have 6: "\<forall>d. matching holds (or_ref ?query []) d
             = (\<forall>f \<in> set fs. holds (fieldName f) (operator f) (value_f f) d)"
    unfolding q
    by (simp add: matching_append matching_wheres matching_sort_clauses matching_limit_clauses)
  have "\<forall>d. matching holds (or_ref ?query' []) d
             = (\<forall>f \<in> set fs. holds (fieldName f) (operator f) (value_f f) d)"
    unfolding q'
    by (simp add: matching_append matching_wheres matching_sort_clauses matching_limit_clauses
        same_set)
  with 6 have 7: "\<forall>d. matching holds (or_ref ?query' []) d = matching holds (or_ref ?query []) d"
    by simp
  then have 8: "{d \<in> collection. matching holds (or_ref ?query' []) d}
        = {d \<in> collection. matching holds (or_ref ?query []) d}"
    by simp
  from 1 2 3 4 5 6 7 8 show ?thesis by blast
qed

text \<open>The two filters of the tests, in both orders, read as equalities on a field.\<close>

theorem filters_conjunctive_in_any_order_witness:
  "\<forall>d. matching field_equals
         [WhereC ''timeStamp'' Eq (Num (Finite 12345)), WhereC ''name'' Eq (Str ''Filtered'')] d
     = matching field_equals
         [WhereC ''name'' Eq (Str ''Filtered''), WhereC ''timeStamp'' Eq (Num (Finite 12345))] d"
proof -
  have h: "mset [test_filter2, test_filter] = mset [test_filter, test_filter2]"
    by simp
  from filters_conjunctive_in_any_order [OF h, where options = emptyOptions
      and holds = field_equals and collection = UNIV]
  obtain query query' where
    a: "applyOptions recording (emptyOptions\<lparr>filters := Some [test_filter, test_filter2]\<rparr>) []
          = Inr query" and
    b: "applyOptions recording (emptyOptions\<lparr>filters := Some [test_filter2, test_filter]\<rparr>) []
          = Inr query'" and
    c: "\<forall>d. matching field_equals (or_ref query' []) d = matching field_equals (or_ref query []) d"
    by blast
  have "applyOptions recording (emptyOptions\<lparr>filters := Some [test_filter, test_filter2]\<rparr>) []
      = Inr (Some [WhereC ''name'' Eq (Str ''Filtered''),
                   WhereC ''timeStamp'' Eq (Num (Finite 12345))])"
    by (simp add: applyOptions_recording clauses_of_def filter_clauses_def sort_clauses_def
        limit_clauses_def where_of_def test_filter_def test_filter2_def emptyOptions_def)
  with a have q: "query = Some [WhereC ''name'' Eq (Str ''Filtered''),
                   WhereC ''timeStamp'' Eq (Num (Finite 12345))]"
    by simp
  have "applyOptions recording (emptyOptions\<lparr>filters := Some [test_filter2, test_filter]\<rparr>) []
      = Inr (Some [WhereC ''timeStamp'' Eq (Num (Finite 12345)),
                   WhereC ''name'' Eq (Str ''Filtered'')])"
    by (simp add: applyOptions_recording clauses_of_def filter_clauses_def sort_clauses_def
        limit_clauses_def where_of_def test_filter_def test_filter2_def emptyOptions_def)
  with b have q': "query' = Some [WhereC ''timeStamp'' Eq (Num (Finite 12345)),
                   WhereC ''name'' Eq (Str ''Filtered'')]"
    by simp
  from c show ?thesis
    unfolding q q' by simp
qed

section \<open>Adding documents\<close>

lemma add_omitted:
  "add repo item None s =
     (case col_add (angularFiretore repo) (collectionPath repo) item s of
        (Inl e, s') \<Rightarrow> (Inl e, s')
      | (Inr docRef, s') \<Rightarrow> (Inr (with_id item (ref_id (angularFiretore repo) docRef)), s'))"
  by (simp add: add_def falsy_string_def Let_def)

lemma add_empty:
  "add repo item (Some []) s =
     (case col_add (angularFiretore repo) (collectionPath repo) item s of
        (Inl e, s') \<Rightarrow> (Inl e, s')
      | (Inr docRef, s') \<Rightarrow> (Inr (with_id item (ref_id (angularFiretore repo) docRef)), s'))"
  by (simp add: add_def falsy_string_def Let_def)

lemma add_explicit:
  "i \<noteq> [] \<Longrightarrow> add repo item (Some i) s =
     (case col_doc (angularFiretore repo) (collectionPath repo) (Str i) of
        Inl e \<Rightarrow> (Inl e, s)
      | Inr docRef \<Rightarrow>
          (case ref_set (angularFiretore repo) docRef item s of
             (Inl e, s') \<Rightarrow> (Inl e, s')
           | (Inr u, s') \<Rightarrow> (Inr (with_id item (ref_id (angularFiretore repo) docRef)), s')))"
  by (simp add: add_def falsy_string_def Let_def)

lemma update_delegates:
  "update repo item s =
     (case col_doc (angularFiretore repo) (collectionPath repo) (id_of item) of
        Inl e \<Rightarrow> (Inl e, s)
      | Inr docRef \<Rightarrow> ref_update (angularFiretore repo) docRef item s)"
  by (simp add: update_def Let_def)

lemma memory_fields [simp]:
  "angularFiretore (create memory path) = memory"
  "collectionPath (create memory path) = path"
  "col_add memory = mem_add"
  "col_doc memory = mem_doc"
  "ref_id memory = snd"
  "ref_set memory = mem_set"
  "ref_update memory = mem_update"
  "ref_delete memory = mem_delete"
  "ref_get_exists memory = mem_get_exists"
  by (simp_all add: create_def memory_def)

lemma auto_id_nonempty: "auto_id n \<noteq> []"
  by (simp add: auto_id_def)

lemma memory_add_omitted:
  "allow s \<Longrightarrow> add (create memory path) item None s =
     (Inr (with_id item (auto_id (generated s))),
      s\<lparr>docs := (docs s)((path, auto_id (generated s)) \<mapsto> item),
        generated := Suc (generated s)\<rparr>)"
  by (simp add: add_omitted mem_add_def Let_def)

lemma memory_add_explicit:
  "allow s \<Longrightarrow> i \<noteq> [] \<Longrightarrow> add (create memory path) item (Some i) s =
     (Inr (with_id item i), s\<lparr>docs := (docs s)((path, i) \<mapsto> item)\<rparr>)"
  by (simp add: add_explicit mem_doc_def mem_set_def)

text \<open>
  C3, as stated, fails for the explicit identifier \<^verbatim>\<open>''\<close>: the guard of
  \<^verbatim>\<open>add\<close> is \<^verbatim>\<open>if (!id)\<close>, so the empty string takes the path of the omitted
  identifier. On the empty in-memory store the document is created under the
  generated identifier \<open>A\<close>, and the entity returned carries \<open>A\<close>, not the
  identifier supplied.
\<close>

theorem add_empty_explicit_id_generates:
  "add (create memory test_path) test_entity (Some []) empty_store =
     (Inr (with_id test_entity ''A''),
      \<lparr>docs = [(test_path, ''A'') \<mapsto> test_entity], generated = Suc 0, allow = True\<rparr>)
   \<and> with_id test_entity ''A'' \<noteq> with_id test_entity []"
proof
  show "add (create memory test_path) test_entity (Some []) empty_store =
     (Inr (with_id test_entity ''A''),
      \<lparr>docs = [(test_path, ''A'') \<mapsto> test_entity], generated = Suc 0, allow = True\<rparr>)"
    by (simp add: add_empty mem_add_def Let_def empty_store_def auto_id_def)
  show "with_id test_entity ''A'' \<noteq> with_id test_entity []"
    by (auto simp: with_id_def dest: map_upd_eqD1)
qed

text \<open>
  C3, amended. For every item, \<^verbatim>\<open>add\<close> called with a non-empty explicit id
  performs an upsert-style write at exactly that identifier and returns the input item
  merged with that exact identifier; \<^verbatim>\<open>add\<close> called with the id argument omitted
  delegates to the client's auto-identifier creation path and returns the input merged
  with a non-empty generated identifier that was not supplied by the caller. The first
  two conjuncts are the delegation, on any client: \<^verbatim>\<open>doc(id)\<close> then \<^verbatim>\<open>set\<close>,
  or the client's \<^verbatim>\<open>add\<close>, the entity returned being the item with the
  \<^verbatim>\<open>id\<close> of the client's document reference. The last two are the outcome on the
  in-memory client when the store allows the write: the document at the identifier is
  the item, whatever was there before, and the generated identifier depends on the
  store alone and is not empty.
\<close>

theorem add_resolves_identifier:
  "(i \<noteq> [] \<longrightarrow> add repo item (Some i) s =
     (case col_doc (angularFiretore repo) (collectionPath repo) (Str i) of
        Inl e \<Rightarrow> (Inl e, s)
      | Inr docRef \<Rightarrow>
          (case ref_set (angularFiretore repo) docRef item s of
             (Inl e, s') \<Rightarrow> (Inl e, s')
           | (Inr u, s') \<Rightarrow> (Inr (with_id item (ref_id (angularFiretore repo) docRef)), s'))))
   \<and> add repo item None s =
     (case col_add (angularFiretore repo) (collectionPath repo) item s of
        (Inl e, s') \<Rightarrow> (Inl e, s')
      | (Inr docRef, s') \<Rightarrow> (Inr (with_id item (ref_id (angularFiretore repo) docRef)), s'))
   \<and> (allow st \<longrightarrow> i \<noteq> [] \<longrightarrow>
        add (create memory path) item (Some i) st =
          (Inr (item(''id'' \<mapsto> Str i)), st\<lparr>docs := (docs st)((path, i) \<mapsto> item)\<rparr>))
   \<and> (allow st \<longrightarrow>
        add (create memory path) item None st =
          (Inr (item(''id'' \<mapsto> Str (auto_id (generated st)))),
           st\<lparr>docs := (docs st)((path, auto_id (generated st)) \<mapsto> item),
              generated := Suc (generated st)\<rparr>)
        \<and> auto_id (generated st) \<noteq> [])"
  using add_explicit [of i repo item s] add_omitted [of repo item s]
    memory_add_explicit [of st i path item] memory_add_omitted [of st path item]
    auto_id_nonempty [of "generated st"]
  by (simp add: with_id_def)

text \<open>The two add tests: the explicit id \<open>abc123\<close>, and no id.\<close>

theorem add_resolves_identifier_witness:
  "add (create memory test_path) test_entity (Some ''abc123'') empty_store =
     (Inr (test_entity(''id'' \<mapsto> Str ''abc123'')),
      empty_store\<lparr>docs := [(test_path, ''abc123'') \<mapsto> test_entity]\<rparr>)
   \<and> add (create memory test_path) test_entity None empty_store =
     (Inr (test_entity(''id'' \<mapsto> Str ''A'')),
      empty_store\<lparr>docs := [(test_path, ''A'') \<mapsto> test_entity], generated := Suc 0\<rparr>)"
proof -
  have h: "allow empty_store" "''abc123'' \<noteq> []" "generated empty_store = 0"
    "docs empty_store = Map.empty"
    by (simp_all add: empty_store_def)
  from add_resolves_identifier [where i = "''abc123''" and st = empty_store
      and path = test_path and item = test_entity and repo = "create memory test_path"
      and s = empty_store] h(1) h(2)
  have "add (create memory test_path) test_entity (Some ''abc123'') empty_store =
          (Inr (test_entity(''id'' \<mapsto> Str ''abc123'')),
           empty_store\<lparr>docs := (docs empty_store)((test_path, ''abc123'') \<mapsto> test_entity)\<rparr>)"
    and "add (create memory test_path) test_entity None empty_store =
          (Inr (test_entity(''id'' \<mapsto> Str (auto_id (generated empty_store)))),
           empty_store\<lparr>docs := (docs empty_store)
                ((test_path, auto_id (generated empty_store)) \<mapsto> test_entity),
              generated := Suc (generated empty_store)\<rparr>)"
    by blast+
  then show ?thesis
    by (simp add: h(3) h(4) auto_id_def)
qed

text \<open>
  C9. \<^verbatim>\<open>add\<close> with the empty string as explicit id is \<^verbatim>\<open>add\<close> with the id
  omitted: on any client the two calls are equal, and both go through the client's
  auto-identifier creation and return the item with the identifier of the reference
  the client created. On the in-memory client that identifier is the generated one,
  which is not the empty string.
\<close>

theorem add_empty_id_as_omitted:
  "add repo item (Some []) s = add repo item None s
   \<and> add repo item (Some []) s =
       (case col_add (angularFiretore repo) (collectionPath repo) item s of
          (Inl e, s') \<Rightarrow> (Inl e, s')
        | (Inr docRef, s') \<Rightarrow> (Inr (with_id item (ref_id (angularFiretore repo) docRef)), s'))
   \<and> (allow st \<longrightarrow>
        add (create memory path) item (Some []) st =
          (Inr (item(''id'' \<mapsto> Str (auto_id (generated st)))),
           st\<lparr>docs := (docs st)((path, auto_id (generated st)) \<mapsto> item),
              generated := Suc (generated st)\<rparr>)
        \<and> auto_id (generated st) \<noteq> [])"
  using add_empty [of repo item s] add_omitted [of repo item s]
    add_empty [of "create memory path" item st]
    add_omitted [of "create memory path" item st]
    memory_add_omitted [of st path item] auto_id_nonempty [of "generated st"]
  by (simp add: with_id_def)

text \<open>The test entity added with the id \<^verbatim>\<open>''\<close> to the empty store.\<close>

theorem add_empty_id_as_omitted_witness:
  "add (create memory test_path) test_entity (Some []) empty_store =
     (Inr (test_entity(''id'' \<mapsto> Str ''A'')),
      empty_store\<lparr>docs := [(test_path, ''A'') \<mapsto> test_entity], generated := Suc 0\<rparr>)
   \<and> add (create memory test_path) test_entity (Some []) empty_store
     = add (create memory test_path) test_entity None empty_store"
proof -
  have h: "allow empty_store" "generated empty_store = 0" "docs empty_store = Map.empty"
    by (simp_all add: empty_store_def)
  from add_empty_id_as_omitted [where st = empty_store
      and path = test_path and item = test_entity and repo = "create memory test_path"
      and s = empty_store] h(1)
  have "add (create memory test_path) test_entity (Some []) empty_store =
          (Inr (test_entity(''id'' \<mapsto> Str (auto_id (generated empty_store)))),
           empty_store\<lparr>docs := (docs empty_store)
                ((test_path, auto_id (generated empty_store)) \<mapsto> test_entity),
              generated := Suc (generated empty_store)\<rparr>)"
    and "add (create memory test_path) test_entity (Some []) empty_store
          = add (create memory test_path) test_entity None empty_store"
    by blast+
  then show ?thesis
    by (simp add: h(2) h(3) auto_id_def)
qed

section \<open>Updating documents\<close>

lemma memory_update_existing:
  assumes "allow s" and "i \<noteq> []" and "item ''id'' = Some (Str i)"
    and "docs s (path, i) = Some d"
  shows "update (create memory path) item s =
           (Inr (), s\<lparr>docs := (docs s)((path, i) \<mapsto> d ++ item)\<rparr>)"
  using assms by (simp add: update_delegates id_of_def mem_doc_def mem_update_def)

lemma memory_exists:
  assumes "allow s" and "i \<noteq> []"
  shows "exists (create memory path) i s = (Inr (docs s (path, i) \<noteq> None), s)"
  using assms by (simp add: exists_def Let_def mem_doc_def mem_get_exists_def)

text \<open>
  C7. For a document \<open>d\<close> stored under the identifier \<open>i\<close> and a partial item
  carrying \<open>i\<close> in its \<^verbatim>\<open>id\<close> field, \<^verbatim>\<open>update\<close> on the in-memory client
  succeeds and merges: the stored document becomes \<open>d\<close> overridden by the item, so
  every field the item supplies has the item's value, every field it does not supply
  keeps the value it had, no other document changes, and the document still exists.
\<close>

theorem update_merges_supplied_fields:
  assumes "allow s" and "i \<noteq> []" and "item ''id'' = Some (Str i)"
    and "docs s (path, i) = Some d"
  shows "\<exists>s'. update (create memory path) item s = (Inr (), s')
      \<and> docs s' (path, i) = Some (d ++ item)
      \<and> (\<forall>k \<in> dom item. (d ++ item) k = item k)
      \<and> (\<forall>k. k \<notin> dom item \<longrightarrow> (d ++ item) k = d k)
      \<and> (\<forall>r. r \<noteq> (path, i) \<longrightarrow> docs s' r = docs s r)
      \<and> exists (create memory path) i s' = (Inr True, s')"
proof -
  let ?s' = "s\<lparr>docs := (docs s)((path, i) \<mapsto> d ++ item)\<rparr>"
  have 1: "update (create memory path) item s = (Inr (), ?s')"
    using assms by (rule memory_update_existing)
  have 2: "docs ?s' (path, i) = Some (d ++ item)"
    by simp
  have 3: "\<forall>k \<in> dom item. (d ++ item) k = item k"
    by (auto simp: map_add_def)
  have 4: "\<forall>k. k \<notin> dom item \<longrightarrow> (d ++ item) k = d k"
    by (simp add: map_add_def domIff)
  have 5: "\<forall>r. r \<noteq> (path, i) \<longrightarrow> docs ?s' r = docs s r"
    by simp
  have "allow ?s'"
    using assms(1) by simp
  then have 6: "exists (create memory path) i ?s' = (Inr True, ?s')"
    using assms(2) by (simp add: memory_exists)
  from 1 2 3 4 5 6 show ?thesis by blast
qed

text \<open>The update test: the name changes, the time stamp stays.\<close>

theorem update_merges_supplied_fields_witness:
  "\<exists>s'. update (create memory test_path) changed_entity one_document_store = (Inr (), s')
      \<and> docs s' (test_path, ''abc123'') =
           Some [''id'' \<mapsto> Str ''abc123'', ''name'' \<mapsto> Str ''Test Update Changed'',
                 ''timeStamp'' \<mapsto> Num (Finite 12345)]"
proof -
  have h: "allow one_document_store" "''abc123'' \<noteq> []"
    "changed_entity ''id'' = Some (Str ''abc123'')"
    "docs one_document_store (test_path, ''abc123'') = Some stored_entity"
    by (simp_all add: one_document_store_def changed_entity_def)
  from update_merges_supplied_fields
    [where s = one_document_store and i = "''abc123''" and item = changed_entity
       and path = test_path and d = stored_entity, OF h]
  obtain s' where
    a: "update (create memory test_path) changed_entity one_document_store = (Inr (), s')" and
    b: "docs s' (test_path, ''abc123'') = Some (stored_entity ++ changed_entity)"
    by blast
  have "stored_entity ++ changed_entity =
      [''id'' \<mapsto> Str ''abc123'', ''name'' \<mapsto> Str ''Test Update Changed'',
       ''timeStamp'' \<mapsto> Num (Finite 12345)]"
    by (rule ext) (simp add: stored_entity_def changed_entity_def map_add_def)
  with a b show ?thesis by auto
qed

section \<open>Errors\<close>

lemma replay_error:
  "replay b cs q = Inl x \<Longrightarrow>
     \<exists>e. x = ClientError e \<and> (\<exists>c \<in> set cs. \<exists>q'. replay_clause b c q' = Inl e)"
proof (induction cs arbitrary: q)
  case Nil
  then show ?case by simp
next
  case (Cons c cs)
  show ?case
  proof (cases "replay_clause b c q")
    case (Inl e)
    with Cons.prems have "x = ClientError e"
      by (simp add: client_call_def)
    with Inl show ?thesis by auto
  next
    case (Inr q1)
    with Cons.prems have "replay b cs q1 = Inl x"
      by (simp add: client_call_def)
    from Cons.IH [OF this] show ?thesis by auto
  qed
qed

lemma applyOptions_error:
  assumes "applyOptions b options ref = Inl x"
  shows "\<exists>e. x = ClientError e \<and> (\<exists>c \<in> set (clauses_of options). \<exists>q. replay_clause b c q = Inl e)"
proof -
  from assms have "replay b (clauses_of options) ref = Inl x"
    by (cases "replay b (clauses_of options) ref") (simp_all add: applyOptions_replay)
  then show ?thesis by (rule replay_error)
qed

lemma fetch_error:
  "fetch repo options = Inl x \<longleftrightarrow>
     applyOptions (builder (angularFiretore repo)) options
       (col_ref (angularFiretore repo) (collectionPath repo)) = Inl x"
  by (cases "applyOptions (builder (angularFiretore repo)) options
       (col_ref (angularFiretore repo) (collectionPath repo))")
     (simp_all add: fetch_def Let_def)

lemma fetchSnapshots_error:
  "fetchSnapshots repo options events = Inl x \<longleftrightarrow>
     applyOptions (builder (angularFiretore repo)) options
       (col_ref (angularFiretore repo) (collectionPath repo)) = Inl x"
  by (cases "applyOptions (builder (angularFiretore repo)) options
       (col_ref (angularFiretore repo) (collectionPath repo))")
     (simp_all add: fetchSnapshots_def Let_def)

lemma fetch_no_TypeError: "fetch repo options \<noteq> Inl TypeError"
  using applyOptions_error by (fastforce simp: fetch_error)

lemma fetchSnapshots_no_TypeError: "fetchSnapshots repo options events \<noteq> Inl TypeError"
  using applyOptions_error by (fastforce simp: fetchSnapshots_error)

lemma fetch_error_from_builder:
  assumes "fetch repo options = Inl (ClientError e)"
  shows "\<exists>cl \<in> set (clauses_of options). \<exists>q. replay_clause (builder (angularFiretore repo)) cl q = Inl e"
  using assms applyOptions_error by (fastforce simp: fetch_error)

lemma fetch_delegates:
  assumes "applyOptions (builder (angularFiretore repo)) options
             (col_ref (angularFiretore repo) (collectionPath repo)) = Inr query"
  shows "fetch repo options =
           Inr (col_valueChanges (angularFiretore repo)
                  (or_ref query (col_ref (angularFiretore repo) (collectionPath repo))) ''id'')"
    and "fetchSnapshots repo options events =
           Inr (col_snapshotChanges (angularFiretore repo)
                  (or_ref query (col_ref (angularFiretore repo) (collectionPath repo))) events)"
  using assms by (simp_all add: fetch_def fetchSnapshots_def Let_def)

lemma fetch_replay:
  "fetch repo options =
     and_then (replay (builder (angularFiretore repo)) (clauses_of options)
                 (col_ref (angularFiretore repo) (collectionPath repo)))
       (\<lambda>q. Inr (col_valueChanges (angularFiretore repo) q ''id''))"
  by (cases "clauses_of options = []")
     (simp_all add: fetch_def Let_def applyOptions_replay and_then_assoc started_def)

lemma fetchSnapshots_replay:
  "fetchSnapshots repo options events =
     and_then (replay (builder (angularFiretore repo)) (clauses_of options)
                 (col_ref (angularFiretore repo) (collectionPath repo)))
       (\<lambda>q. Inr (col_snapshotChanges (angularFiretore repo) q events))"
  by (cases "clauses_of options = []")
     (simp_all add: fetchSnapshots_def Let_def applyOptions_replay and_then_assoc started_def)

lemma replay_first_error:
  assumes "replay b pre q0 = Inr q" and "replay_clause b cl q = Inl e"
  shows "replay b (pre @ cl # post) q0 = Inl (ClientError e)"
  using assms by (simp add: replay_append client_call_def)

lemma fetch_call_error:
  assumes "clauses_of options = pre @ cl # post"
    and "replay (builder (angularFiretore repo)) pre
           (col_ref (angularFiretore repo) (collectionPath repo)) = Inr q"
    and "replay_clause (builder (angularFiretore repo)) cl q = Inl e"
  shows "fetch repo options = Inl (ClientError e)
       \<and> fetchSnapshots repo options events = Inl (ClientError e)"
  using replay_first_error [OF assms(2) assms(3), of post] assms(1)
  by (simp add: fetch_replay fetchSnapshots_replay)

lemma where_call_position:
  assumes "filters options = Some (pre @ f # post)"
  shows "clauses_of options =
           map where_of pre @ where_of f # (map where_of post @ sort_clauses options @ limit_clauses options)"
  using assms by (simp add: clauses_of_def filter_clauses_def)

lemma orderBy_call_position:
  assumes "sorts options = Some (pre @ s # post)"
  shows "clauses_of options =
           (filter_clauses options @ map orderBy_of pre) @ orderBy_of s #
             (map orderBy_of post @ cursor_clauses options @ limit_clauses options)"
  using assms by (simp add: clauses_of_def sort_clauses_def)

lemma cursor_call_position:
  assumes "sorts options = Some ss" and "ss \<noteq> []" and "cursor_clauses options = pre @ cl # post"
  shows "clauses_of options =
           (filter_clauses options @ map orderBy_of ss @ pre) @ cl # (post @ limit_clauses options)"
  using assms by (simp add: clauses_of_def sort_clauses_def)

lemma limit_call_position:
  assumes "limit options = Some n" and "truthy_number n"
  shows "clauses_of options = (filter_clauses options @ sort_clauses options) @ LimitC n # []"
  using assms by (simp add: clauses_of_def limit_clauses_def)

lemma where_error_reaches_caller:
  assumes "filters options = Some (pre @ f # post)"
    and "replay (builder (angularFiretore repo)) (map where_of pre)
           (col_ref (angularFiretore repo) (collectionPath repo)) = Inr q"
    and "q_where (builder (angularFiretore repo)) q (fieldName f) (operator f) (value_f f) = Inl e"
  shows "fetch repo options = Inl (ClientError e)
       \<and> fetchSnapshots repo options events = Inl (ClientError e)"
proof (rule fetch_call_error [OF where_call_position [OF assms(1)] assms(2)])
  show "replay_clause (builder (angularFiretore repo)) (where_of f) q = Inl e"
    using assms(3) by (simp add: where_of_def)
qed

lemma orderBy_error_reaches_caller:
  assumes "sorts options = Some (pre @ s # post)"
    and "replay (builder (angularFiretore repo)) (filter_clauses options @ map orderBy_of pre)
           (col_ref (angularFiretore repo) (collectionPath repo)) = Inr q"
    and "q_orderBy (builder (angularFiretore repo)) q (sortFieldName s) (direction s) = Inl e"
  shows "fetch repo options = Inl (ClientError e)
       \<and> fetchSnapshots repo options events = Inl (ClientError e)"
proof (rule fetch_call_error [OF orderBy_call_position [OF assms(1)] assms(2)])
  show "replay_clause (builder (angularFiretore repo)) (orderBy_of s) q = Inl e"
    using assms(3) by (simp add: orderBy_of_def)
qed

lemma cursor_error_reaches_caller:
  assumes "sorts options = Some ss" and "ss \<noteq> []" and "cursor_clauses options = pre @ cl # post"
    and "replay (builder (angularFiretore repo)) (filter_clauses options @ map orderBy_of ss @ pre)
           (col_ref (angularFiretore repo) (collectionPath repo)) = Inr q"
    and "replay_clause (builder (angularFiretore repo)) cl q = Inl e"
  shows "fetch repo options = Inl (ClientError e)
       \<and> fetchSnapshots repo options events = Inl (ClientError e)"
  by (rule fetch_call_error [OF cursor_call_position [OF assms(1) assms(2) assms(3)] assms(4) assms(5)])

lemma limit_error_reaches_caller:
  assumes "limit options = Some n" and "truthy_number n"
    and "replay (builder (angularFiretore repo)) (filter_clauses options @ sort_clauses options)
           (col_ref (angularFiretore repo) (collectionPath repo)) = Inr q"
    and "q_limit (builder (angularFiretore repo)) q n = Inl e"
  shows "fetch repo options = Inl (ClientError e)
       \<and> fetchSnapshots repo options events = Inl (ClientError e)"
proof (rule fetch_call_error [OF limit_call_position [OF assms(1) assms(2)] assms(3)])
  show "replay_clause (builder (angularFiretore repo)) (LimitC n) q = Inl e"
    using assms(4) by simp
qed


lemma startAt_error_reaches_caller:
  assumes "sorts options = Some ss" and "ss \<noteq> []" and "startAt options \<noteq> Undefined"
    and "replay (builder (angularFiretore repo)) (filter_clauses options @ map orderBy_of ss)
           (col_ref (angularFiretore repo) (collectionPath repo)) = Inr q"
    and "q_startAt (builder (angularFiretore repo)) q (startAt options) = Inl e"
  shows "fetch repo options = Inl (ClientError e)
       \<and> fetchSnapshots repo options events = Inl (ClientError e)"
proof (rule cursor_error_reaches_caller [OF assms(1) assms(2), where pre = "[]"
      and cl = "StartAtC (startAt options)"])
  show "cursor_clauses options = [] @ StartAtC (startAt options) #
      ((if startAfter options \<noteq> Undefined then [StartAfterC (startAfter options)] else []) @
       (if endAt options \<noteq> Undefined then [EndAtC (endAt options)] else []) @
       (if endBefore options \<noteq> Undefined then [EndBeforeC (endBefore options)] else []))"
    using assms(3) by (simp add: cursor_clauses_def)
  show "replay (builder (angularFiretore repo)) (filter_clauses options @ map orderBy_of ss @ [])
           (col_ref (angularFiretore repo) (collectionPath repo)) = Inr q"
    using assms(4) by simp
  show "replay_clause (builder (angularFiretore repo)) (StartAtC (startAt options)) q = Inl e"
    using assms(5) by simp
qed

lemma startAfter_error_reaches_caller:
  assumes "sorts options = Some ss" and "ss \<noteq> []" and "startAfter options \<noteq> Undefined"
    and "replay (builder (angularFiretore repo))
           (filter_clauses options @ map orderBy_of ss @
            (if startAt options \<noteq> Undefined then [StartAtC (startAt options)] else []))
           (col_ref (angularFiretore repo) (collectionPath repo)) = Inr q"
    and "q_startAfter (builder (angularFiretore repo)) q (startAfter options) = Inl e"
  shows "fetch repo options = Inl (ClientError e)
       \<and> fetchSnapshots repo options events = Inl (ClientError e)"
proof (rule cursor_error_reaches_caller [OF assms(1) assms(2), where
      pre = "(if startAt options \<noteq> Undefined then [StartAtC (startAt options)] else [])"
      and cl = "StartAfterC (startAfter options)"])
  show "cursor_clauses options =
      (if startAt options \<noteq> Undefined then [StartAtC (startAt options)] else []) @
      StartAfterC (startAfter options) #
      ((if endAt options \<noteq> Undefined then [EndAtC (endAt options)] else []) @
       (if endBefore options \<noteq> Undefined then [EndBeforeC (endBefore options)] else []))"
    using assms(3) by (simp add: cursor_clauses_def)
  show "replay (builder (angularFiretore repo))
           (filter_clauses options @ map orderBy_of ss @
            (if startAt options \<noteq> Undefined then [StartAtC (startAt options)] else []))
           (col_ref (angularFiretore repo) (collectionPath repo)) = Inr q"
    by (rule assms(4))
  show "replay_clause (builder (angularFiretore repo)) (StartAfterC (startAfter options)) q = Inl e"
    using assms(5) by simp
qed

lemma endAt_error_reaches_caller:
  assumes "sorts options = Some ss" and "ss \<noteq> []" and "endAt options \<noteq> Undefined"
    and "replay (builder (angularFiretore repo))
           (filter_clauses options @ map orderBy_of ss @
            (if startAt options \<noteq> Undefined then [StartAtC (startAt options)] else []) @
            (if startAfter options \<noteq> Undefined then [StartAfterC (startAfter options)] else []))
           (col_ref (angularFiretore repo) (collectionPath repo)) = Inr q"
    and "q_endAt (builder (angularFiretore repo)) q (endAt options) = Inl e"
  shows "fetch repo options = Inl (ClientError e)
       \<and> fetchSnapshots repo options events = Inl (ClientError e)"
proof (rule cursor_error_reaches_caller [OF assms(1) assms(2), where
      pre = "(if startAt options \<noteq> Undefined then [StartAtC (startAt options)] else []) @
             (if startAfter options \<noteq> Undefined then [StartAfterC (startAfter options)] else [])"
      and cl = "EndAtC (endAt options)"])
  show "cursor_clauses options =
      ((if startAt options \<noteq> Undefined then [StartAtC (startAt options)] else []) @
       (if startAfter options \<noteq> Undefined then [StartAfterC (startAfter options)] else [])) @
      EndAtC (endAt options) #
      (if endBefore options \<noteq> Undefined then [EndBeforeC (endBefore options)] else [])"
    using assms(3) by (simp add: cursor_clauses_def)
  show "replay (builder (angularFiretore repo))
           (filter_clauses options @ map orderBy_of ss @
            (if startAt options \<noteq> Undefined then [StartAtC (startAt options)] else []) @
            (if startAfter options \<noteq> Undefined then [StartAfterC (startAfter options)] else []))
           (col_ref (angularFiretore repo) (collectionPath repo)) = Inr q"
    by (rule assms(4))
  show "replay_clause (builder (angularFiretore repo)) (EndAtC (endAt options)) q = Inl e"
    using assms(5) by simp
qed

lemma endBefore_error_reaches_caller:
  assumes "sorts options = Some ss" and "ss \<noteq> []" and "endBefore options \<noteq> Undefined"
    and "replay (builder (angularFiretore repo))
           (filter_clauses options @ map orderBy_of ss @
            (if startAt options \<noteq> Undefined then [StartAtC (startAt options)] else []) @
            (if startAfter options \<noteq> Undefined then [StartAfterC (startAfter options)] else []) @
            (if endAt options \<noteq> Undefined then [EndAtC (endAt options)] else []))
           (col_ref (angularFiretore repo) (collectionPath repo)) = Inr q"
    and "q_endBefore (builder (angularFiretore repo)) q (endBefore options) = Inl e"
  shows "fetch repo options = Inl (ClientError e)
       \<and> fetchSnapshots repo options events = Inl (ClientError e)"
proof (rule cursor_error_reaches_caller [OF assms(1) assms(2), where
      pre = "(if startAt options \<noteq> Undefined then [StartAtC (startAt options)] else []) @
             (if startAfter options \<noteq> Undefined then [StartAfterC (startAfter options)] else []) @
             (if endAt options \<noteq> Undefined then [EndAtC (endAt options)] else [])"
      and cl = "EndBeforeC (endBefore options)" and post = "[]"])
  show "cursor_clauses options =
      ((if startAt options \<noteq> Undefined then [StartAtC (startAt options)] else []) @
       (if startAfter options \<noteq> Undefined then [StartAfterC (startAfter options)] else []) @
       (if endAt options \<noteq> Undefined then [EndAtC (endAt options)] else [])) @
      EndBeforeC (endBefore options) # []"
    using assms(3) by (simp add: cursor_clauses_def)
  show "replay (builder (angularFiretore repo))
           (filter_clauses options @ map orderBy_of ss @
            (if startAt options \<noteq> Undefined then [StartAtC (startAt options)] else []) @
            (if startAfter options \<noteq> Undefined then [StartAfterC (startAfter options)] else []) @
            (if endAt options \<noteq> Undefined then [EndAtC (endAt options)] else []))
           (col_ref (angularFiretore repo) (collectionPath repo)) = Inr q"
    by (rule assms(4))
  show "replay_clause (builder (angularFiretore repo)) (EndBeforeC (endBefore options)) q = Inl e"
    using assms(5) by simp
qed

lemma by_id_error:
  assumes "col_doc (angularFiretore repo) (collectionPath repo) (Str i) = Inl e"
  shows "delete repo i s = (Inl e, s)" and "exists repo i s = (Inl e, s)"
    and "get repo i = Inl e" and "getSnapshot repo i = Inl e"
  using assms by (simp_all add: delete_def exists_def get_def getSnapshot_def Let_def)

lemma by_id_delegates:
  assumes "col_doc (angularFiretore repo) (collectionPath repo) (Str i) = Inr r"
  shows "delete repo i s = ref_delete (angularFiretore repo) r s"
    and "exists repo i s = ref_get_exists (angularFiretore repo) r s"
    and "get repo i = Inr (doc_valueChanges (angularFiretore repo) r ''id'')"
    and "getSnapshot repo i = Inr (doc_snapshotChanges (angularFiretore repo) r)"
  using assms by (simp_all add: delete_def exists_def get_def getSnapshot_def Let_def)

lemma memory_update_no_id:
  "item ''id'' = None \<Longrightarrow> update (create memory path) item st = (Inl InvalidArgument, st)"
  by (simp add: update_delegates id_of_def mem_doc_def)

lemma memory_update_missing:
  "allow st \<Longrightarrow> i \<noteq> [] \<Longrightarrow> item ''id'' = Some (Str i) \<Longrightarrow> docs st (path, i) = None \<Longrightarrow>
     update (create memory path) item st = (Inl NotFound, st)"
  by (simp add: update_delegates id_of_def mem_doc_def mem_update_def)

text \<open>
  C8. Every operation hands on the error the client raised, as it is, with the store as
  the client's one call left it: nothing is retried, recovered or translated.
  \<^item> \<^verbatim>\<open>add\<close>: the error of the client's \<^verbatim>\<open>add\<close>, of \<^verbatim>\<open>doc\<close> or of \<^verbatim>\<open>set\<close>;
  \<^item> \<^verbatim>\<open>update\<close>: the error of \<^verbatim>\<open>doc\<close>, else whatever the client's \<^verbatim>\<open>update\<close> returns;
  \<^item> \<^verbatim>\<open>delete\<close>, \<^verbatim>\<open>exists\<close>, \<^verbatim>\<open>get\<close>, \<^verbatim>\<open>getSnapshot\<close>: the error of
    \<^verbatim>\<open>doc\<close>, else whatever the client's method returns;
  \<^item> \<^verbatim>\<open>fetch\<close>, \<^verbatim>\<open>fetchSnapshots\<close>: never a \<^verbatim>\<open>TypeError\<close> of the
    repository's own making; an error of the query translation is thrown on, and each
    such error is one that a call on the client's builder raised; without an error,
    the stream returned is the client's own, with the errors it may carry.
  \<^item> \<^verbatim>\<open>fetch\<close>, \<^verbatim>\<open>fetchSnapshots\<close>, call by call: both are the calls the
    options ask for, made in order on the client's builder from the collection
    reference, and then the client's stream of the query built; so when the calls before
    it have succeeded and a \<^verbatim>\<open>where\<close>, an \<^verbatim>\<open>orderBy\<close>, a \<^verbatim>\<open>startAt\<close>,
    \<^verbatim>\<open>startAfter\<close>, \<^verbatim>\<open>endAt\<close>, \<^verbatim>\<open>endBefore\<close> or the \<^verbatim>\<open>limit\<close> returns
    an error, that error is what the caller of \<^verbatim>\<open>fetch\<close> and of
    \<^verbatim>\<open>fetchSnapshots\<close> gets, and no stream.
  In particular, on the in-memory client, \<^verbatim>\<open>update\<close> fails when the item carries no
  identifier and when no document is stored under the identifier it carries; which
  error it fails with is the client's choice.
\<close>

theorem client_errors_propagate_unmodified:
  fixes repo :: "('s, 'r, 'q, 'o, 'e) FirestoreRepo"
  defines "c \<equiv> angularFiretore repo" and "p \<equiv> collectionPath repo"
  shows
   "(col_add c p item s = (Inl e, s') \<longrightarrow> add repo item None s = (Inl e, s'))
  \<and> (i \<noteq> [] \<longrightarrow> col_doc c p (Str i) = Inl e \<longrightarrow> add repo item (Some i) s = (Inl e, s))
  \<and> (i \<noteq> [] \<longrightarrow> col_doc c p (Str i) = Inr r \<longrightarrow> ref_set c r item s = (Inl e, s') \<longrightarrow>
        add repo item (Some i) s = (Inl e, s'))
  \<and> (col_doc c p (id_of item) = Inl e \<longrightarrow> update repo item s = (Inl e, s))
  \<and> (col_doc c p (id_of item) = Inr r \<longrightarrow> update repo item s = ref_update c r item s)
  \<and> (col_doc c p (Str i) = Inl e \<longrightarrow>
        delete repo i s = (Inl e, s) \<and> exists repo i s = (Inl e, s)
        \<and> get repo i = Inl e \<and> getSnapshot repo i = Inl e)
  \<and> (col_doc c p (Str i) = Inr r \<longrightarrow>
        delete repo i s = ref_delete c r s \<and> exists repo i s = ref_get_exists c r s
        \<and> get repo i = Inr (doc_valueChanges c r ''id'')
        \<and> getSnapshot repo i = Inr (doc_snapshotChanges c r))
  \<and> fetch repo options \<noteq> Inl TypeError
  \<and> fetchSnapshots repo options events \<noteq> Inl TypeError
  \<and> (applyOptions (builder c) options (col_ref c p) = Inl x \<longrightarrow>
        fetch repo options = Inl x \<and> fetchSnapshots repo options events = Inl x)
  \<and> (fetch repo options = Inl (ClientError e) \<longrightarrow>
        (\<exists>cl \<in> set (clauses_of options). \<exists>q. replay_clause (builder c) cl q = Inl e))
  \<and> (applyOptions (builder c) options (col_ref c p) = Inr query \<longrightarrow>
        fetch repo options = Inr (col_valueChanges c (or_ref query (col_ref c p)) ''id'')
        \<and> fetchSnapshots repo options events
            = Inr (col_snapshotChanges c (or_ref query (col_ref c p)) events))
  \<and> (item ''id'' = None \<longrightarrow> update (create memory path) item st = (Inl InvalidArgument, st))
  \<and> (allow st \<longrightarrow> i \<noteq> [] \<longrightarrow> item ''id'' = Some (Str i) \<longrightarrow> docs st (path, i) = None \<longrightarrow>
        update (create memory path) item st = (Inl NotFound, st))
  \<and> fetch repo options =
        and_then (replay (builder c) (clauses_of options) (col_ref c p))
          (\<lambda>q. Inr (col_valueChanges c q ''id''))
  \<and> fetchSnapshots repo options events =
        and_then (replay (builder c) (clauses_of options) (col_ref c p))
          (\<lambda>q. Inr (col_snapshotChanges c q events))
  \<and> (filters options = Some (fpre @ f # fpost) \<longrightarrow>
        replay (builder c) (map where_of fpre) (col_ref c p) = Inr qf \<longrightarrow>
        q_where (builder c) qf (fieldName f) (operator f) (value_f f) = Inl e \<longrightarrow>
        fetch repo options = Inl (ClientError e)
        \<and> fetchSnapshots repo options events = Inl (ClientError e))
  \<and> (sorts options = Some (spre @ srt # spost) \<longrightarrow>
        replay (builder c) (filter_clauses options @ map orderBy_of spre) (col_ref c p) = Inr qs \<longrightarrow>
        q_orderBy (builder c) qs (sortFieldName srt) (direction srt) = Inl e \<longrightarrow>
        fetch repo options = Inl (ClientError e)
        \<and> fetchSnapshots repo options events = Inl (ClientError e))
  \<and> (sorts options = Some ss \<longrightarrow> ss \<noteq> [] \<longrightarrow> startAt options \<noteq> Undefined \<longrightarrow>
        replay (builder c) (filter_clauses options @ map orderBy_of ss) (col_ref c p) = Inr q1 \<longrightarrow>
        q_startAt (builder c) q1 (startAt options) = Inl e \<longrightarrow>
        fetch repo options = Inl (ClientError e)
        \<and> fetchSnapshots repo options events = Inl (ClientError e))
  \<and> (sorts options = Some ss \<longrightarrow> ss \<noteq> [] \<longrightarrow> startAfter options \<noteq> Undefined \<longrightarrow>
        replay (builder c) (filter_clauses options @ map orderBy_of ss @
          (if startAt options \<noteq> Undefined then [StartAtC (startAt options)] else [])) (col_ref c p) = Inr q2 \<longrightarrow>
        q_startAfter (builder c) q2 (startAfter options) = Inl e \<longrightarrow>
        fetch repo options = Inl (ClientError e)
        \<and> fetchSnapshots repo options events = Inl (ClientError e))
  \<and> (sorts options = Some ss \<longrightarrow> ss \<noteq> [] \<longrightarrow> endAt options \<noteq> Undefined \<longrightarrow>
        replay (builder c) (filter_clauses options @ map orderBy_of ss @
          (if startAt options \<noteq> Undefined then [StartAtC (startAt options)] else []) @
          (if startAfter options \<noteq> Undefined then [StartAfterC (startAfter options)] else [])) (col_ref c p) = Inr q3 \<longrightarrow>
        q_endAt (builder c) q3 (endAt options) = Inl e \<longrightarrow>
        fetch repo options = Inl (ClientError e)
        \<and> fetchSnapshots repo options events = Inl (ClientError e))
  \<and> (sorts options = Some ss \<longrightarrow> ss \<noteq> [] \<longrightarrow> endBefore options \<noteq> Undefined \<longrightarrow>
        replay (builder c) (filter_clauses options @ map orderBy_of ss @
          (if startAt options \<noteq> Undefined then [StartAtC (startAt options)] else []) @
          (if startAfter options \<noteq> Undefined then [StartAfterC (startAfter options)] else []) @
          (if endAt options \<noteq> Undefined then [EndAtC (endAt options)] else [])) (col_ref c p) = Inr q4 \<longrightarrow>
        q_endBefore (builder c) q4 (endBefore options) = Inl e \<longrightarrow>
        fetch repo options = Inl (ClientError e)
        \<and> fetchSnapshots repo options events = Inl (ClientError e))
  \<and> (limit options = Some n \<longrightarrow> truthy_number n \<longrightarrow>
        replay (builder c) (filter_clauses options @ sort_clauses options) (col_ref c p) = Inr ql \<longrightarrow>
        q_limit (builder c) ql n = Inl e \<longrightarrow>
        fetch repo options = Inl (ClientError e)
        \<and> fetchSnapshots repo options events = Inl (ClientError e))"
proof -
  have 1: "col_add c p item s = (Inl e, s') \<longrightarrow> add repo item None s = (Inl e, s')"
    by (simp add: add_omitted c_def p_def)
  have 2: "i \<noteq> [] \<longrightarrow> col_doc c p (Str i) = Inl e \<longrightarrow> add repo item (Some i) s = (Inl e, s)"
    by (simp add: add_explicit c_def p_def)
  have 3: "i \<noteq> [] \<longrightarrow> col_doc c p (Str i) = Inr r \<longrightarrow> ref_set c r item s = (Inl e, s') \<longrightarrow>
        add repo item (Some i) s = (Inl e, s')"
    by (simp add: add_explicit c_def p_def)
  have 4: "col_doc c p (id_of item) = Inl e \<longrightarrow> update repo item s = (Inl e, s)"
    by (simp add: update_delegates c_def p_def)
  have 5: "col_doc c p (id_of item) = Inr r \<longrightarrow> update repo item s = ref_update c r item s"
    by (simp add: update_delegates c_def p_def)
  have 6: "col_doc c p (Str i) = Inl e \<longrightarrow>
        delete repo i s = (Inl e, s) \<and> exists repo i s = (Inl e, s)
        \<and> get repo i = Inl e \<and> getSnapshot repo i = Inl e"
    by (simp add: by_id_error c_def p_def)
  have 7: "col_doc c p (Str i) = Inr r \<longrightarrow>
        delete repo i s = ref_delete c r s \<and> exists repo i s = ref_get_exists c r s
        \<and> get repo i = Inr (doc_valueChanges c r ''id'')
        \<and> getSnapshot repo i = Inr (doc_snapshotChanges c r)"
    by (simp add: by_id_delegates c_def p_def)
  have 8: "applyOptions (builder c) options (col_ref c p) = Inl x \<longrightarrow>
        fetch repo options = Inl x \<and> fetchSnapshots repo options events = Inl x"
    by (simp add: fetch_error fetchSnapshots_error c_def p_def)
  have 9: "fetch repo options = Inl (ClientError e) \<longrightarrow>
        (\<exists>cl \<in> set (clauses_of options). \<exists>q. replay_clause (builder c) cl q = Inl e)"
    unfolding c_def by (rule impI) (rule fetch_error_from_builder)
  have 12: "applyOptions (builder c) options (col_ref c p) = Inr query \<longrightarrow>
        fetch repo options = Inr (col_valueChanges c (or_ref query (col_ref c p)) ''id'')
        \<and> fetchSnapshots repo options events
            = Inr (col_snapshotChanges c (or_ref query (col_ref c p)) events)"
    by (simp add: fetch_delegates c_def p_def)
  have 10: "item ''id'' = None \<longrightarrow> update (create memory path) item st = (Inl InvalidArgument, st)"
    by (simp add: memory_update_no_id)
  have 11: "allow st \<longrightarrow> i \<noteq> [] \<longrightarrow> item ''id'' = Some (Str i) \<longrightarrow> docs st (path, i) = None \<longrightarrow>
        update (create memory path) item st = (Inl NotFound, st)"
    by (simp add: memory_update_missing)
  have 13: "fetch repo options =
        and_then (replay (builder c) (clauses_of options) (col_ref c p))
          (\<lambda>q. Inr (col_valueChanges c q ''id''))"
    unfolding c_def p_def by (rule fetch_replay)
  have 14: "fetchSnapshots repo options events =
        and_then (replay (builder c) (clauses_of options) (col_ref c p))
          (\<lambda>q. Inr (col_snapshotChanges c q events))"
    unfolding c_def p_def by (rule fetchSnapshots_replay)
  have 15: "(filters options = Some (fpre @ f # fpost) \<longrightarrow>
        replay (builder c) (map where_of fpre) (col_ref c p) = Inr qf \<longrightarrow>
        q_where (builder c) qf (fieldName f) (operator f) (value_f f) = Inl e \<longrightarrow>
        fetch repo options = Inl (ClientError e)
        \<and> fetchSnapshots repo options events = Inl (ClientError e))"
    unfolding c_def p_def by (intro impI) (rule where_error_reaches_caller)
  have 16: "(sorts options = Some (spre @ srt # spost) \<longrightarrow>
        replay (builder c) (filter_clauses options @ map orderBy_of spre) (col_ref c p) = Inr qs \<longrightarrow>
        q_orderBy (builder c) qs (sortFieldName srt) (direction srt) = Inl e \<longrightarrow>
        fetch repo options = Inl (ClientError e)
        \<and> fetchSnapshots repo options events = Inl (ClientError e))"
    unfolding c_def p_def by (intro impI) (rule orderBy_error_reaches_caller)
  have 17: "(sorts options = Some ss \<longrightarrow> ss \<noteq> [] \<longrightarrow> startAt options \<noteq> Undefined \<longrightarrow>
        replay (builder c) (filter_clauses options @ map orderBy_of ss) (col_ref c p) = Inr q1 \<longrightarrow>
        q_startAt (builder c) q1 (startAt options) = Inl e \<longrightarrow>
        fetch repo options = Inl (ClientError e)
        \<and> fetchSnapshots repo options events = Inl (ClientError e))"
    unfolding c_def p_def by (intro impI) (rule startAt_error_reaches_caller)
  have 18: "(sorts options = Some ss \<longrightarrow> ss \<noteq> [] \<longrightarrow> startAfter options \<noteq> Undefined \<longrightarrow>
        replay (builder c) (filter_clauses options @ map orderBy_of ss @
          (if startAt options \<noteq> Undefined then [StartAtC (startAt options)] else [])) (col_ref c p) = Inr q2 \<longrightarrow>
        q_startAfter (builder c) q2 (startAfter options) = Inl e \<longrightarrow>
        fetch repo options = Inl (ClientError e)
        \<and> fetchSnapshots repo options events = Inl (ClientError e))"
    unfolding c_def p_def by (intro impI) (rule startAfter_error_reaches_caller)
  have 19: "(sorts options = Some ss \<longrightarrow> ss \<noteq> [] \<longrightarrow> endAt options \<noteq> Undefined \<longrightarrow>
        replay (builder c) (filter_clauses options @ map orderBy_of ss @
          (if startAt options \<noteq> Undefined then [StartAtC (startAt options)] else []) @
          (if startAfter options \<noteq> Undefined then [StartAfterC (startAfter options)] else [])) (col_ref c p) = Inr q3 \<longrightarrow>
        q_endAt (builder c) q3 (endAt options) = Inl e \<longrightarrow>
        fetch repo options = Inl (ClientError e)
        \<and> fetchSnapshots repo options events = Inl (ClientError e))"
    unfolding c_def p_def by (intro impI) (rule endAt_error_reaches_caller)
  have 20: "(sorts options = Some ss \<longrightarrow> ss \<noteq> [] \<longrightarrow> endBefore options \<noteq> Undefined \<longrightarrow>
        replay (builder c) (filter_clauses options @ map orderBy_of ss @
          (if startAt options \<noteq> Undefined then [StartAtC (startAt options)] else []) @
          (if startAfter options \<noteq> Undefined then [StartAfterC (startAfter options)] else []) @
          (if endAt options \<noteq> Undefined then [EndAtC (endAt options)] else [])) (col_ref c p) = Inr q4 \<longrightarrow>
        q_endBefore (builder c) q4 (endBefore options) = Inl e \<longrightarrow>
        fetch repo options = Inl (ClientError e)
        \<and> fetchSnapshots repo options events = Inl (ClientError e))"
    unfolding c_def p_def by (intro impI) (rule endBefore_error_reaches_caller)
  have 21: "(limit options = Some n \<longrightarrow> truthy_number n \<longrightarrow>
        replay (builder c) (filter_clauses options @ sort_clauses options) (col_ref c p) = Inr ql \<longrightarrow>
        q_limit (builder c) ql n = Inl e \<longrightarrow>
        fetch repo options = Inl (ClientError e)
        \<and> fetchSnapshots repo options events = Inl (ClientError e))"
    unfolding c_def p_def by (intro impI) (rule limit_error_reaches_caller)
  from 1 2 3 4 5 6 7 fetch_no_TypeError [of repo options]
    fetchSnapshots_no_TypeError [of repo options events] 8 9 12 10 11
    13 14 15 16 17 18 19 20 21
  show ?thesis by (intro conjI)
qed

text \<open>
  A store that denies the write, a limit the builder rejects, a second filter the
  builder rejects after it took the first, an item without identifier, and an
  identifier with no document.
\<close>

theorem client_errors_propagate_unmodified_witness:
  "add (create memory test_path) test_entity None locked_store
     = (Inl PermissionDenied, locked_store)
   \<and> fetch (create memory test_path) (emptyOptions\<lparr>limit := Some (Finite (- 1))\<rparr>)
     = Inl (ClientError InvalidArgument)
   \<and> fetch (create strict_memory test_path)
       (emptyOptions\<lparr>filters := Some [test_filter, bad_filter]\<rparr>)
     = Inl (ClientError InvalidArgument)
   \<and> fetchSnapshots (create strict_memory test_path)
       (emptyOptions\<lparr>filters := Some [test_filter, bad_filter]\<rparr>) None
     = Inl (ClientError InvalidArgument)
   \<and> update (create memory test_path) test_entity empty_store
     = (Inl InvalidArgument, empty_store)
   \<and> update (create memory test_path) changed_entity empty_store
     = (Inl NotFound, empty_store)"
proof -
  let ?repo = "create memory test_path"
  let ?strict = "create strict_memory test_path"
  let ?limited = "emptyOptions\<lparr>limit := Some (Finite (- 1))\<rparr>"
  let ?filtered = "emptyOptions\<lparr>filters := Some [test_filter, bad_filter]\<rparr>"
  have denied: "col_add (angularFiretore ?repo) (collectionPath ?repo) test_entity locked_store
      = (Inl PermissionDenied, locked_store)"
    by (simp add: mem_add_def locked_store_def)
  have limited: "limit ?limited = Some (Finite (- 1))" "truthy_number (Finite (- 1))"
    "replay (builder (angularFiretore ?repo)) (filter_clauses ?limited @ sort_clauses ?limited)
       (col_ref (angularFiretore ?repo) (collectionPath ?repo)) = Inr (test_path, [])"
    "q_limit (builder (angularFiretore ?repo)) (test_path, []) (Finite (- 1)) = Inl InvalidArgument"
    by (simp_all add: filter_clauses_def sort_clauses_def emptyOptions_def create_def memory_def
        mem_builder_def)
  have filtered: "filters ?filtered = Some ([test_filter] @ bad_filter # [])"
    "replay (builder (angularFiretore ?strict)) (map where_of [test_filter])
       (col_ref (angularFiretore ?strict) (collectionPath ?strict))
       = Inr (test_path, [WhereC ''name'' Eq (Str ''Filtered'')])"
    "q_where (builder (angularFiretore ?strict)) (test_path, [WhereC ''name'' Eq (Str ''Filtered'')])
       (fieldName bad_filter) (operator bad_filter) (value_f bad_filter) = Inl InvalidArgument"
    by (simp_all add: create_def strict_memory_def strict_builder_def memory_def mem_builder_def
        mem_append_def client_call_def where_of_def test_filter_def bad_filter_def)
  have no_id: "test_entity ''id'' = None"
    by (simp add: test_entity_def)
  have missing: "allow empty_store" "''abc123'' \<noteq> []"
    "changed_entity ''id'' = Some (Str ''abc123'')"
    "docs empty_store (test_path, ''abc123'') = None"
    by (simp_all add: empty_store_def changed_entity_def)
  from client_errors_propagate_unmodified
    [where repo = ?repo and item = test_entity and s = locked_store and s' = locked_store
       and e = PermissionDenied, THEN conjunct1] denied
  have a: "add ?repo test_entity None locked_store = (Inl PermissionDenied, locked_store)"
    by (rule mp)
  from client_errors_propagate_unmodified
    [where repo = ?repo and options = ?limited and n = "Finite (- 1)" and ql = "(test_path, [])"
       and e = InvalidArgument, THEN conjunct2, THEN conjunct2, THEN conjunct2, THEN conjunct2, THEN conjunct2, THEN conjunct2, THEN conjunct2, THEN conjunct2, THEN conjunct2, THEN conjunct2, THEN conjunct2, THEN conjunct2, THEN conjunct2, THEN conjunct2, THEN conjunct2, THEN conjunct2, THEN conjunct2, THEN conjunct2, THEN conjunct2, THEN conjunct2, THEN conjunct2, THEN conjunct2] limited
  have b: "fetch ?repo ?limited = Inl (ClientError InvalidArgument)"
    by blast
  from client_errors_propagate_unmodified
    [where repo = ?strict and options = ?filtered and fpre = "[test_filter]" and f = bad_filter
       and fpost = "[]" and qf = "(test_path, [WhereC ''name'' Eq (Str ''Filtered'')])"
       and e = InvalidArgument and events = None, THEN conjunct2, THEN conjunct2, THEN conjunct2, THEN conjunct2, THEN conjunct2, THEN conjunct2, THEN conjunct2, THEN conjunct2, THEN conjunct2, THEN conjunct2, THEN conjunct2, THEN conjunct2, THEN conjunct2, THEN conjunct2, THEN conjunct2, THEN conjunct2, THEN conjunct1] filtered
  have c: "fetch ?strict ?filtered = Inl (ClientError InvalidArgument)
      \<and> fetchSnapshots ?strict ?filtered None = Inl (ClientError InvalidArgument)"
    by blast
  from client_errors_propagate_unmodified
    [where item = test_entity and path = test_path and st = empty_store, THEN conjunct2, THEN conjunct2, THEN conjunct2, THEN conjunct2, THEN conjunct2, THEN conjunct2, THEN conjunct2, THEN conjunct2, THEN conjunct2, THEN conjunct2, THEN conjunct2, THEN conjunct2, THEN conjunct1] no_id
  have d: "update ?repo test_entity empty_store = (Inl InvalidArgument, empty_store)"
    by (rule mp)
  from client_errors_propagate_unmodified
    [where item = changed_entity and i = "''abc123''" and path = test_path
       and st = empty_store, THEN conjunct2, THEN conjunct2, THEN conjunct2, THEN conjunct2, THEN conjunct2, THEN conjunct2, THEN conjunct2, THEN conjunct2, THEN conjunct2, THEN conjunct2, THEN conjunct2, THEN conjunct2, THEN conjunct2, THEN conjunct1] missing
  have e: "update ?repo changed_entity empty_store = (Inl NotFound, empty_store)"
    by blast
  from a b c d e show ?thesis by simp
qed

end
